theory Spec2Isabelle
  imports Main "HOL-Library.Sublist"
begin

section \<open>Go strings and the library functions the plugin calls\<close>

text \<open>
  A Go \<open>string\<close> is a sequence of bytes; it is modelled as a \<open>string\<close> (a list of
  8-bit \<open>char\<close>s). The functions of package \<open>strings\<close> that the plugin calls are
  modelled on byte lists, with the behaviour of the Go standard library.
\<close>

definition byte :: "char \<Rightarrow> nat" where
  "byte c = of_char c"

text \<open>\<open>strings.HasPrefix\<close>, \<open>strings.HasSuffix\<close>, \<open>strings.TrimPrefix\<close>, \<open>strings.TrimSuffix\<close>.\<close>

definition HasPrefix :: "string \<Rightarrow> string \<Rightarrow> bool" where
  "HasPrefix s pre = (length s \<ge> length pre \<and> take (length pre) s = pre)"

definition HasSuffix :: "string \<Rightarrow> string \<Rightarrow> bool" where
  "HasSuffix s suf = (length s \<ge> length suf \<and> drop (length s - length suf) s = suf)"

definition TrimPrefix :: "string \<Rightarrow> string \<Rightarrow> string" where
  "TrimPrefix s pre = (if HasPrefix s pre then drop (length pre) s else s)"

definition TrimSuffix :: "string \<Rightarrow> string \<Rightarrow> string" where
  "TrimSuffix s suf = (if HasSuffix s suf then take (length s - length suf) s else s)"

text \<open>
  \<open>strings.Index\<close> for a one-byte separator: the position of its first occurrence.
\<close>

fun IndexByte :: "string \<Rightarrow> char \<Rightarrow> nat option" where
  "IndexByte [] c = None"
| "IndexByte (x # xs) c =
     (if x = c then Some 0 else map_option Suc (IndexByte xs c))"

text \<open>
  \<open>strings.Split(s, sep)\<close> for a one-byte separator: the pieces between the
  occurrences of the separator, one more than there are separators. The loop of
  the library cuts at the first occurrence and goes on with the rest.
\<close>

function Split :: "string \<Rightarrow> char \<Rightarrow> string list" where
  "Split s sep =
     (case IndexByte s sep of
        None \<Rightarrow> [s]
      | Some m \<Rightarrow> take m s # Split (drop (Suc m) s) sep)"
  by pat_completeness auto
termination
proof (relation "measure (\<lambda>(s, sep). length s)")
  fix s :: string and sep :: char and m :: nat
  assume "IndexByte s sep = Some m"
  then have "s \<noteq> []" by auto
  then show "((drop (Suc m) s, sep), (s, sep)) \<in> measure (\<lambda>(s, sep). length s)"
    by simp
qed simp

declare Split.simps [simp del]

text \<open>
  \<open>strings.SplitN(s, sep, 2)\<close> for a one-byte separator: at most two pieces, cut at
  the first occurrence of the separator; one piece when there is none.
\<close>

definition SplitN2 :: "string \<Rightarrow> char \<Rightarrow> string list" where
  "SplitN2 s sep =
     (case IndexByte s sep of
        None \<Rightarrow> [s]
      | Some m \<Rightarrow> [take m s, drop (Suc m) s])"

text \<open>
  \<open>strings.TrimSpace\<close> removes the leading and the trailing white space, as
  Unicode defines it, from a UTF-8 string. \<open>unicode.IsSpace\<close> holds of
  U+0009..U+000D, U+0020, U+0085, U+00A0, U+1680, U+2000..U+200A, U+2028,
  U+2029, U+202F, U+205F and U+3000. A rune is decoded as one of them exactly
  when the bytes are its (shortest) UTF-8 encoding; any other byte sequence,
  valid or not, decodes to a rune that is not white space and stops the trimming.
\<close>

definition spaceEncodings :: "string list" where
  "spaceEncodings =
     [[CHR 0x09], [CHR 0x0A], [CHR 0x0B], [CHR 0x0C], [CHR 0x0D], [CHR 0x20],
      [CHR 0xC2, CHR 0x85], [CHR 0xC2, CHR 0xA0],
      [CHR 0xE1, CHR 0x9A, CHR 0x80],
      [CHR 0xE2, CHR 0x80, CHR 0x80], [CHR 0xE2, CHR 0x80, CHR 0x81],
      [CHR 0xE2, CHR 0x80, CHR 0x82], [CHR 0xE2, CHR 0x80, CHR 0x83],
      [CHR 0xE2, CHR 0x80, CHR 0x84], [CHR 0xE2, CHR 0x80, CHR 0x85],
      [CHR 0xE2, CHR 0x80, CHR 0x86], [CHR 0xE2, CHR 0x80, CHR 0x87],
      [CHR 0xE2, CHR 0x80, CHR 0x88], [CHR 0xE2, CHR 0x80, CHR 0x89],
      [CHR 0xE2, CHR 0x80, CHR 0x8A],
      [CHR 0xE2, CHR 0x80, CHR 0xA8], [CHR 0xE2, CHR 0x80, CHR 0xA9],
      [CHR 0xE2, CHR 0x80, CHR 0xAF],
      [CHR 0xE2, CHR 0x81, CHR 0x9F],
      [CHR 0xE3, CHR 0x80, CHR 0x80]]"

text \<open>
  The width in bytes of the white-space rune a string starts with (ends with), and
  0 when it starts (ends) with no such rune.
\<close>

definition leadingSpace :: "string \<Rightarrow> nat" where
  "leadingSpace s =
     (case List.find (\<lambda>e. HasPrefix s e) spaceEncodings of
        None \<Rightarrow> 0
      | Some e \<Rightarrow> length e)"

definition trailingSpace :: "string \<Rightarrow> nat" where
  "trailingSpace s =
     (case List.find (\<lambda>e. HasSuffix s e) spaceEncodings of
        None \<Rightarrow> 0
      | Some e \<Rightarrow> length e)"

function TrimLeftSpace :: "string \<Rightarrow> string" where
  "TrimLeftSpace s =
     (if leadingSpace s = 0 then s else TrimLeftSpace (drop (leadingSpace s) s))"
  by pat_completeness auto
termination
proof (relation "measure length")
  fix s :: string
  assume "leadingSpace s \<noteq> 0"
  then obtain e where "List.find (\<lambda>e. HasPrefix s e) spaceEncodings = Some e"
    and "leadingSpace s = length e"
    by (auto simp: leadingSpace_def split: option.splits)
  then have "e \<in> set spaceEncodings" and "HasPrefix s e" and "leadingSpace s = length e"
    by (auto simp: find_Some_iff intro: nth_mem)
  moreover from this have "e \<noteq> []"
    by (auto simp: spaceEncodings_def)
  ultimately have "0 < leadingSpace s" and "s \<noteq> []"
    by (auto simp: HasPrefix_def)
  then show "(drop (leadingSpace s) s, s) \<in> measure length"
    by simp
qed simp

function TrimRightSpace :: "string \<Rightarrow> string" where
  "TrimRightSpace s =
     (if trailingSpace s = 0 then s
      else TrimRightSpace (take (length s - trailingSpace s) s))"
  by pat_completeness auto
termination
proof (relation "measure length")
  fix s :: string
  assume "trailingSpace s \<noteq> 0"
  then obtain e where "List.find (\<lambda>e. HasSuffix s e) spaceEncodings = Some e"
    and "trailingSpace s = length e"
    by (auto simp: trailingSpace_def split: option.splits)
  then have "e \<in> set spaceEncodings" and "HasSuffix s e" and "trailingSpace s = length e"
    by (auto simp: find_Some_iff intro: nth_mem)
  moreover from this have "e \<noteq> []"
    by (auto simp: spaceEncodings_def)
  ultimately have "0 < trailingSpace s" and "s \<noteq> []"
    by (auto simp: HasSuffix_def)
  then show "(take (length s - trailingSpace s) s, s) \<in> measure length"
    by simp
qed simp

declare TrimLeftSpace.simps [simp del] TrimRightSpace.simps [simp del]

definition TrimSpace :: "string \<Rightarrow> string" where
  "TrimSpace s = TrimRightSpace (TrimLeftSpace s)"

section \<open>The plugin's configuration and its parser\<close>

record PluginConfig =
  TemplateFile :: string
  OutputDir :: string
  PackageName :: string

text \<open>The two errors of \<open>parsePluginOptions\<close>, told apart by their messages.\<close>

datatype config_error =
  MissingParameter
| MissingTemplateFile

text \<open>
  The body of the loop over the entries: an entry that does not split in two at
  \<open>=\<close> is skipped; the key and the value are trimmed; an unknown key changes
  nothing.
\<close>

definition applyPair :: "PluginConfig \<Rightarrow> string \<Rightarrow> PluginConfig" where
  "applyPair config pair =
     (let kv = SplitN2 pair (CHR ''='') in
      if length kv \<noteq> 2 then config
      else
        let key = TrimSpace (kv ! 0);
            val = TrimSpace (kv ! 1)
        in if key = ''template_file'' then config\<lparr>TemplateFile := val\<rparr>
           else if key = ''output_dir'' then config\<lparr>OutputDir := val\<rparr>
           else if key = ''package_name'' then config\<lparr>PackageName := val\<rparr>
           else config)"

definition defaultConfig :: PluginConfig where
  "defaultConfig =
     \<lparr>TemplateFile = '''',
      OutputDir = ''local_service_center'',
      PackageName = ''local_service_center''\<rparr>"

definition parsePluginOptions :: "string \<Rightarrow> config_error + PluginConfig" where
  "parsePluginOptions param =
     (if param = '''' then Inl MissingParameter
      else
        let config = foldl applyPair defaultConfig (Split param (CHR '',''))
        in if TemplateFile config = '''' then Inl MissingTemplateFile
           else Inr config)"

text \<open>
  The trimmed key and value of an entry, as the loop body computes them; \<open>None\<close>
  for an entry the loop skips. The field of the configuration that a recognized
  key names.
\<close>

definition entry_kv :: "string \<Rightarrow> (string \<times> string) option" where
  "entry_kv pair =
     (let kv = SplitN2 pair (CHR ''='') in
      if length kv \<noteq> 2 then None
      else Some (TrimSpace (kv ! 0), TrimSpace (kv ! 1)))"

definition recognized :: "string set" where
  "recognized = {''template_file'', ''output_dir'', ''package_name''}"

definition fieldOf :: "string \<Rightarrow> PluginConfig \<Rightarrow> string" where
  "fieldOf k config =
     (if k = ''template_file'' then TemplateFile config
      else if k = ''output_dir'' then OutputDir config
      else PackageName config)"

section \<open>Lower-casing\<close>

text \<open>
  \<open>strings.ToLower\<close>: a string of ASCII bytes only has its letters \<open>A\<close>..\<open>Z\<close>
  replaced by \<open>a\<close>..\<open>z\<close>; any other string is mapped rune by rune through
  \<open>unicode.ToLower\<close>. The Unicode case tables are not part of this code base, so
  that mapping is a parameter.
\<close>

definition lowerASCII :: "char \<Rightarrow> char" where
  "lowerASCII c =
     (if byte (CHR ''A'') \<le> byte c \<and> byte c \<le> byte (CHR ''Z'')
      then char_of (byte c + 32) else c)"

definition ToLower :: "(string \<Rightarrow> string) \<Rightarrow> string \<Rightarrow> string" where
  "ToLower unicodeLower s =
     (if list_all (\<lambda>c. byte c < 128) s then map lowerASCII s
      else unicodeLower s)"

text \<open>
  The conversion \<open>string(b)\<close> of a byte value to a string: the UTF-8 encoding of the
  code point \<open>b\<close>, one byte below 128 and two bytes from 128 on.
\<close>

definition string_of_byte :: "nat \<Rightarrow> string" where
  "string_of_byte b =
     (if b < 128 then [char_of b]
      else [char_of (192 + b div 64), char_of (128 + b mod 64)])"

text \<open>\<open>toCamelCase\<close> of \<open>part_000\<close>; the addition \<open>first+32\<close> is one of bytes.\<close>

definition toCamelCase :: "string \<Rightarrow> string" where
  "toCamelCase s =
     (if length s = 0 then s
      else
        let first = byte (s ! 0) in
        if first \<ge> byte (CHR ''A'') \<and> first \<le> byte (CHR ''Z'')
        then string_of_byte ((first + 32) mod 256) @ drop 1 s
        else s)"

section \<open>Descriptors, the plugin state and the outside world\<close>

text \<open>
  What the plugin reads of \<open>protogen.Service\<close> and \<open>protogen.File\<close>: the declared
  name of a service (\<open>service.Desc.Name()\<close>), and of a file the flag \<open>Generate\<close>, the
  Go package name, the Go import path and the services in the order of the schema.
\<close>

record Service =
  DescName :: string

record File =
  Generate :: bool
  GoPackageName :: string
  GoImportPath :: string
  Services :: "Service list"

text \<open>
  The data handed to the template. \<open>PackageName\<close> is already a field of
  \<open>PluginConfig\<close>, so the field of \<open>ServiceInfo\<close> carries a suffix. The
  \<open>ServiceInfo\<close> of \<open>part_000\<close> has one more field, \<open>ProtoImportPath\<close>.
\<close>

record ServiceInfo =
  PackageName_info :: string
  ServiceName :: string
  ProtoPackageName :: string

record ServiceInfo_part000 = ServiceInfo +
  ProtoImportPath :: string

text \<open>
  The calls that leave the program are recorded in a trace, oldest first, so that
  "the template is not loaded" is a statement about the state.
\<close>

datatype event =
  Stat string
| ReadFile string
| ParseTemplate
| ExecuteTemplate
| FormatSource

text \<open>
  \<open>protogen.Plugin\<close>: the parameter of the request (a pointer, \<open>None\<close> for nil), the
  files, the generated files registered so far (path and buffer), and the trace.
\<close>

record Plugin =
  Parameter :: "string option"
  Files :: "File list"
  genFiles :: "(string \<times> string) list"
  trace :: "event list"

text \<open>
  The error numbers a call to the file system fails with, and \<open>os.IsNotExist\<close> of
  the error of a call (\<open>None\<close> for nil): it holds of \<open>ENOENT\<close> and of no other error
  number.
\<close>

datatype errno =
  ENOENT
| ENOTDIR
| EACCES
| EISDIR
| EIO

definition IsNotExist :: "errno option \<Rightarrow> bool" where
  "IsNotExist err = (err = Some ENOENT)"

text \<open>
  The outside world: the file system (the error of \<open>os.Stat\<close>, the result of
  \<open>os.ReadFile\<close>), the template engine (\<open>Parse\<close>, \<open>Execute\<close>), \<open>format.Source\<close>,
  \<open>filepath.Join\<close> (it depends on the platform), the Unicode lower-casing behind
  \<open>strings.ToLower\<close>, and the error of \<open>GeneratedFile.Write\<close>. A failing call gives
  \<open>Inl\<close> of its error (\<open>Some\<close> for \<open>Stat\<close> and \<open>Write\<close>).
\<close>

record ('tmpl, 'data) env =
  osStat :: "string \<Rightarrow> errno option"
  readFile :: "string \<Rightarrow> errno + string"
  templateParse :: "string \<Rightarrow> string + 'tmpl"
  templateExecute :: "'tmpl \<Rightarrow> 'data \<Rightarrow> string + string"
  formatSource :: "string \<Rightarrow> string + string"
  filepathJoin :: "string \<Rightarrow> string \<Rightarrow> string"
  mapUnicodeLower :: "string \<Rightarrow> string"
  genWrite :: "string \<Rightarrow> string option"

text \<open>The errors, one constructor for each message the code builds.\<close>

datatype load_error =
  TemplateNotFound string
| TemplateReadError errno

datatype gen_error =
  ParseOptionsFailed config_error
| LoadTemplateFailed load_error
| ParseTemplateFailed string
| ExecuteTemplateFailed string
| FormatFailed string
| WriteFailed string

definition logEvent :: "event \<Rightarrow> Plugin \<Rightarrow> Plugin" where
  "logEvent ev gen = gen\<lparr>trace := trace gen @ [ev]\<rparr>"

text \<open>
  \<open>gen.NewGeneratedFile\<close> registers a file with an empty buffer and returns a
  handle to it, here its index; \<open>Write\<close> appends to the buffer of the handle.
\<close>

definition NewGeneratedFile :: "Plugin \<Rightarrow> string \<Rightarrow> Plugin \<times> nat" where
  "NewGeneratedFile gen filename =
     (gen\<lparr>genFiles := genFiles gen @ [(filename, '''')]\<rparr>, length (genFiles gen))"

definition Write :: "Plugin \<Rightarrow> nat \<Rightarrow> string \<Rightarrow> Plugin" where
  "Write gen g p =
     gen\<lparr>genFiles := (genFiles gen)[g := apsnd (\<lambda>buf. buf @ p) (genFiles gen ! g)]\<rparr>"

section \<open>Loading the template\<close>

definition loadTemplate ::
  "('tmpl, 'data) env \<Rightarrow> PluginConfig \<Rightarrow> Plugin \<Rightarrow> Plugin \<times> (load_error + string)" where
  "loadTemplate env config gen =
     (let gen1 = logEvent (Stat (TemplateFile config)) gen in
      if IsNotExist (osStat env (TemplateFile config))
      then (gen1, Inl (TemplateNotFound (TemplateFile config)))
      else
        let gen2 = logEvent (ReadFile (TemplateFile config)) gen1 in
        case readFile env (TemplateFile config) of
          Inl err \<Rightarrow> (gen2, Inl (TemplateReadError err))
        | Inr content \<Rightarrow> (gen2, Inr content))"

text \<open>
  A file system to run \<open>loadTemplate\<close> in: regular files (content, and whether
  they may be read) and directories, each under the list of the components of its
  path from the working directory, which is the empty list. A path is resolved
  component by component, as the system does: a component that is missing gives
  \<open>ENOENT\<close>, a component that is a regular file and is followed by more gives
  \<open>ENOTDIR\<close>. A path exists when it resolves. \<open>os.Stat\<close> fails as the resolution
  does; \<open>os.ReadFile\<close> fails likewise, and on a directory and on a file that may
  not be read.
\<close>

datatype node =
  RegularFile string bool
| Directory

type_synonym filesystem = "string list \<Rightarrow> node option"

fun resolve :: "filesystem \<Rightarrow> string list \<Rightarrow> string list \<Rightarrow> errno + node" where
  "resolve fs at [] = (case fs at of None \<Rightarrow> Inl ENOENT | Some n \<Rightarrow> Inr n)"
| "resolve fs at (c # cs) =
     (case fs at of
        None \<Rightarrow> Inl ENOENT
      | Some (RegularFile content readable) \<Rightarrow> Inl ENOTDIR
      | Some Directory \<Rightarrow> resolve fs (at @ [c]) cs)"

definition lookupPath :: "filesystem \<Rightarrow> string \<Rightarrow> errno + node" where
  "lookupPath fs path = resolve fs [] (Split path (CHR ''/''))"

definition pathExists :: "filesystem \<Rightarrow> string \<Rightarrow> bool" where
  "pathExists fs path = (\<not> isl (lookupPath fs path))"

definition fsStat :: "filesystem \<Rightarrow> string \<Rightarrow> errno option" where
  "fsStat fs path = (case lookupPath fs path of Inl err \<Rightarrow> Some err | Inr n \<Rightarrow> None)"

definition fsReadFile :: "filesystem \<Rightarrow> string \<Rightarrow> errno + string" where
  "fsReadFile fs path =
     (case lookupPath fs path of
        Inl err \<Rightarrow> Inl err
      | Inr Directory \<Rightarrow> Inl EISDIR
      | Inr (RegularFile content readable) \<Rightarrow> if readable then Inr content else Inl EACCES)"

definition onFileSystem :: "filesystem \<Rightarrow> ('tmpl, 'data) env \<Rightarrow> ('tmpl, 'data) env" where
  "onFileSystem fs env = env\<lparr>osStat := fsStat fs, readFile := fsReadFile fs\<rparr>"

section \<open>Naming\<close>

text \<open>
  \<open>protoPackageName\<close> of \<open>main.go\<close> (lines 116 to 119) and \<open>serviceName\<close> (line 122 of
  \<open>main.go\<close>, line 123 of \<open>part_000\<close>).
\<close>

definition protoPackageName_of :: "File \<Rightarrow> string" where
  "protoPackageName_of file =
     (let protoPackageName = TrimPrefix (GoPackageName file) ''proto_'' in
      if protoPackageName = GoPackageName file
      then TrimPrefix (GoPackageName file) ''proto.''
      else protoPackageName)"

definition serviceName_of :: "Service \<Rightarrow> string" where
  "serviceName_of service = TrimSuffix (DescName service) ''Service''"

section \<open>Generating the file of one service\<close>

text \<open>\<open>generateServiceRegistry\<close> of \<open>main.go\<close>.\<close>

definition generateServiceRegistry ::
  "('tmpl, ServiceInfo) env \<Rightarrow> Plugin \<Rightarrow> File \<Rightarrow> Service \<Rightarrow> PluginConfig
     \<Rightarrow> Plugin \<times> gen_error option" where
  "generateServiceRegistry env gen file service config =
     (let protoPackageName = protoPackageName_of file;
          serviceName = serviceName_of service;
          data = \<lparr>PackageName_info = PackageName config,
                  ServiceName = serviceName,
                  ProtoPackageName = protoPackageName\<rparr>
      in
      case loadTemplate env config gen of
        (gen1, Inl err) \<Rightarrow> (gen1, Some (LoadTemplateFailed err))
      | (gen1, Inr tmplContent) \<Rightarrow>
          (let gen2 = logEvent ParseTemplate gen1 in
           case templateParse env tmplContent of
             Inl err \<Rightarrow> (gen2, Some (ParseTemplateFailed err))
           | Inr tmpl \<Rightarrow>
               (let gen3 = logEvent ExecuteTemplate gen2 in
                case templateExecute env tmpl data of
                  Inl err \<Rightarrow> (gen3, Some (ExecuteTemplateFailed err))
                | Inr buf \<Rightarrow>
                    (let gen4 = logEvent FormatSource gen3 in
                     case formatSource env buf of
                       Inl err \<Rightarrow> (gen4, Some (FormatFailed err))
                     | Inr formatted \<Rightarrow>
                         (let fileName = ToLower (mapUnicodeLower env) serviceName @ ''.go'';
                              outputPath = filepathJoin env (OutputDir config) fileName;
                              (gen5, g) = NewGeneratedFile gen4 outputPath
                          in
                          case genWrite env formatted of
                            Some err \<Rightarrow> (gen5, Some (WriteFailed err))
                          | None \<Rightarrow> (Write gen5 g formatted, None))))))"

text \<open>\<open>generateServiceRegistry\<close> of \<open>part_000\<close>.\<close>

definition generateServiceRegistry_part000 ::
  "('tmpl, ServiceInfo_part000) env \<Rightarrow> Plugin \<Rightarrow> File \<Rightarrow> Service \<Rightarrow> PluginConfig
     \<Rightarrow> Plugin \<times> gen_error option" where
  "generateServiceRegistry_part000 env gen file service config =
     (let protoImportPath = GoImportPath file;
          protoPackageName = GoPackageName file;
          serviceName = serviceName_of service;
          data = \<lparr>PackageName_info = PackageName config,
                  ServiceName = serviceName,
                  ProtoPackageName = protoPackageName,
                  ProtoImportPath = protoImportPath\<rparr>
      in
      case loadTemplate env config gen of
        (gen1, Inl err) \<Rightarrow> (gen1, Some (LoadTemplateFailed err))
      | (gen1, Inr tmplContent) \<Rightarrow>
          (let gen2 = logEvent ParseTemplate gen1 in
           case templateParse env tmplContent of
             Inl err \<Rightarrow> (gen2, Some (ParseTemplateFailed err))
           | Inr tmpl \<Rightarrow>
               (let gen3 = logEvent ExecuteTemplate gen2 in
                case templateExecute env tmpl data of
                  Inl err \<Rightarrow> (gen3, Some (ExecuteTemplateFailed err))
                | Inr buf \<Rightarrow>
                    (let gen4 = logEvent FormatSource gen3 in
                     case formatSource env buf of
                       Inl err \<Rightarrow> (gen4, Some (FormatFailed err))
                     | Inr formatted \<Rightarrow>
                         (let fileName = toCamelCase serviceName @ ''.go'';
                              outputPath = filepathJoin env (OutputDir config) fileName;
                              (gen5, g) = NewGeneratedFile gen4 outputPath
                          in
                          case genWrite env formatted of
                            Some err \<Rightarrow> (gen5, Some (WriteFailed err))
                          | None \<Rightarrow> (Write gen5 g formatted, None))))))"

section \<open>The run\<close>

text \<open>
  The two loops of \<open>main\<close> (\<open>main.go\<close>, lines 41 to 53): the first error returns at
  once, a file whose \<open>Generate\<close> is false is passed over.
\<close>

fun serviceLoop ::
  "('tmpl, ServiceInfo) env \<Rightarrow> Plugin \<Rightarrow> File \<Rightarrow> Service list \<Rightarrow> PluginConfig
     \<Rightarrow> Plugin \<times> gen_error option" where
  "serviceLoop env gen f [] config = (gen, None)"
| "serviceLoop env gen f (service # rest) config =
     (case generateServiceRegistry env gen f service config of
        (gen', Some err) \<Rightarrow> (gen', Some err)
      | (gen', None) \<Rightarrow> serviceLoop env gen' f rest config)"

fun fileLoop ::
  "('tmpl, ServiceInfo) env \<Rightarrow> Plugin \<Rightarrow> File list \<Rightarrow> PluginConfig
     \<Rightarrow> Plugin \<times> gen_error option" where
  "fileLoop env gen [] config = (gen, None)"
| "fileLoop env gen (f # rest) config =
     (if \<not> Generate f then fileLoop env gen rest config
      else
        case serviceLoop env gen f (Services f) config of
          (gen', Some err) \<Rightarrow> (gen', Some err)
        | (gen', None) \<Rightarrow> fileLoop env gen' rest config)"

definition main :: "('tmpl, ServiceInfo) env \<Rightarrow> Plugin \<Rightarrow> Plugin \<times> gen_error option" where
  "main env gen =
     (let param = (case Parameter gen of None \<Rightarrow> '''' | Some p \<Rightarrow> p) in
      case parsePluginOptions param of
        Inl err \<Rightarrow> (gen, Some (ParseOptionsFailed err))
      | Inr config \<Rightarrow> fileLoop env gen (Files gen) config)"

text \<open>
  For the statements about the run: the services the loops visit, in their order,
  each with its file; the run over such a list; the path of the file of a service.
\<close>

definition eligibleServices :: "File list \<Rightarrow> (File \<times> Service) list" where
  "eligibleServices files =
     concat (map (\<lambda>f. map (Pair f) (Services f)) (filter Generate files))"

fun generateAll ::
  "('tmpl, ServiceInfo) env \<Rightarrow> Plugin \<Rightarrow> (File \<times> Service) list \<Rightarrow> PluginConfig
     \<Rightarrow> Plugin \<times> gen_error option" where
  "generateAll env gen [] config = (gen, None)"
| "generateAll env gen ((f, service) # rest) config =
     (case generateServiceRegistry env gen f service config of
        (gen', Some err) \<Rightarrow> (gen', Some err)
      | (gen', None) \<Rightarrow> generateAll env gen' rest config)"

definition outputPath_of :: "('tmpl, 'data) env \<Rightarrow> PluginConfig \<Rightarrow> Service \<Rightarrow> string" where
  "outputPath_of env config service =
     filepathJoin env (OutputDir config)
       (ToLower (mapUnicodeLower env) (serviceName_of service) @ ''.go'')"

definition outputPath_part000 :: "('tmpl, 'data) env \<Rightarrow> PluginConfig \<Rightarrow> Service \<Rightarrow> string" where
  "outputPath_part000 env config service =
     filepathJoin env (OutputDir config)
       (toCamelCase (serviceName_of service) @ ''.go'')"



text \<open>
  A small world to run the definitions in. Its file system has one template,
  \<open>t.tmpl\<close>, which declares a type named after the service, a file that may not
  be read and a directory; parsing fails on an empty template; formatting fails
  on the declaration of a type with no name; paths are joined with \<open>/\<close>.
\<close>

definition demoFs :: filesystem where
  "demoFs at =
     (if at = [] then Some Directory
      else if at = [''t.tmpl''] then Some (RegularFile ''package x; type '' True)
      else if at = [''locked.tmpl''] then Some (RegularFile ''package y'' False)
      else if at = [''templates''] then Some Directory
      else None)"

definition demoEnv :: "(string, 'a ServiceInfo_scheme) env" where
  "demoEnv =
     \<lparr>osStat = fsStat demoFs,
      readFile = fsReadFile demoFs,
      templateParse = (\<lambda>t. if t = '''' then Inl ''empty'' else Inr t),
      templateExecute = (\<lambda>t d. Inr (t @ ServiceName d @ '' struct{}'')),
      formatSource = (\<lambda>b. if b = ''package x; type  struct{}'' then Inl ''expected identifier''
                           else Inr b),
      filepathJoin = (\<lambda>d f. d @ ''/'' @ f),
      mapUnicodeLower = (\<lambda>s. s),
      genWrite = (\<lambda>b. None)\<rparr>"

text \<open>
  Requests for that world: a dependency that is not to be generated and declares
  a service; a file with three services, the second of which is named \<open>Service\<close>
  and so renders to a text that does not format; a file with one service; a
  file with two.
\<close>

definition depFile :: File where
  "depFile =
     \<lparr>Generate = False, GoPackageName = ''dep'', GoImportPath = ''x/dep'',
      Services = [\<lparr>DescName = ''DepService''\<rparr>]\<rparr>"

definition orderFile :: File where
  "orderFile =
     \<lparr>Generate = True, GoPackageName = ''proto_order'', GoImportPath = ''x/order'',
      Services = [\<lparr>DescName = ''OrderService''\<rparr>, \<lparr>DescName = ''Service''\<rparr>,
                  \<lparr>DescName = ''LaterService''\<rparr>]\<rparr>"

definition userFile :: File where
  "userFile =
     \<lparr>Generate = True, GoPackageName = ''proto.user'', GoImportPath = ''x/user'',
      Services = [\<lparr>DescName = ''UserService''\<rparr>]\<rparr>"


definition demoConfig :: PluginConfig where
  "demoConfig = \<lparr>TemplateFile = ''t.tmpl'', OutputDir = ''out'', PackageName = ''pkg''\<rparr>"

definition demoPlugin :: "File list \<Rightarrow> Plugin" where
  "demoPlugin files =
     \<lparr>Parameter = Some ''template_file=t.tmpl,output_dir=out,package_name=pkg'',
      Files = files, genFiles = [], trace = []\<rparr>"

section \<open>The parser: entries, keys and values\<close>

lemma IndexByte_None: "IndexByte s c = None \<longleftrightarrow> c \<notin> set s"
  by (induction s) auto

lemma IndexByte_Some:
  "IndexByte s c = Some m \<Longrightarrow> m < length s \<and> s ! m = c \<and> c \<notin> set (take m s)"
proof (induction s arbitrary: m)
  case Nil
  then show ?case by simp
next
  case (Cons x xs)
  show ?case
  proof (cases "x = c")
    case True
    with Cons.prems show ?thesis by simp
  next
    case False
    with Cons.prems obtain m' where m': "IndexByte xs c = Some m'" "m = Suc m'"
      by auto
    from Cons.IH [OF m'(1)] False m'(2) show ?thesis by simp
  qed
qed

lemma IndexByte_cut:
  assumes "IndexByte s c = Some m"
  shows "s = take m s @ c # drop (Suc m) s"
proof -
  from IndexByte_Some [OF assms] have lt: "m < length s" and at: "s ! m = c"
    by simp_all
  have "take m s @ c # drop (Suc m) s = take m s @ s ! m # drop (Suc m) s"
    by (simp only: at)
  also have "\<dots> = s"
    by (rule id_take_nth_drop [OF lt, symmetric])
  finally show ?thesis by (rule sym)
qed

lemma Split_no_sep: "e \<in> set (Split s c) \<Longrightarrow> c \<notin> set e"
proof (induction s c rule: Split.induct)
  case (1 s sep)
  show ?case
  proof (cases "IndexByte s sep")
    case None
    with "1.prems" have "e = s" by (simp add: Split.simps [of s sep])
    with None show ?thesis by (simp add: IndexByte_None)
  next
    case (Some m)
    with "1.prems" have "e = take m s \<or> e \<in> set (Split (drop (Suc m) s) sep)"
      by (simp add: Split.simps [of s sep])
    then show ?thesis
    proof
      assume "e = take m s"
      with IndexByte_Some [OF Some] show ?thesis by simp
    next
      assume "e \<in> set (Split (drop (Suc m) s) sep)"
      with "1.IH" [OF Some] show ?thesis by simp
    qed
  qed
qed

lemma set_TrimLeftSpace: "set (TrimLeftSpace s) \<subseteq> set s"
proof (induction s rule: TrimLeftSpace.induct)
  case (1 s)
  show ?case
  proof (cases "leadingSpace s = 0")
    case True
    then show ?thesis by (simp add: TrimLeftSpace.simps [of s])
  next
    case False
    from "1.IH" [OF False] have "set (TrimLeftSpace (drop (leadingSpace s) s)) \<subseteq> set s"
      using set_drop_subset [of "leadingSpace s" s] by blast
    with False show ?thesis by (simp add: TrimLeftSpace.simps [of s])
  qed
qed

lemma set_TrimRightSpace: "set (TrimRightSpace s) \<subseteq> set s"
proof (induction s rule: TrimRightSpace.induct)
  case (1 s)
  show ?case
  proof (cases "trailingSpace s = 0")
    case True
    then show ?thesis by (simp add: TrimRightSpace.simps [of s])
  next
    case False
    from "1.IH" [OF False]
    have "set (TrimRightSpace (take (length s - trailingSpace s) s)) \<subseteq> set s"
      using set_take_subset [of "length s - trailingSpace s" s] by blast
    with False show ?thesis by (simp add: TrimRightSpace.simps [of s])
  qed
qed

lemma set_TrimSpace: "set (TrimSpace s) \<subseteq> set s"
  unfolding TrimSpace_def using set_TrimRightSpace set_TrimLeftSpace by blast

lemma entry_kv_None: "CHR ''='' \<notin> set e \<Longrightarrow> entry_kv e = None"
  by (simp add: entry_kv_def SplitN2_def IndexByte_None [symmetric])

lemma entry_kv_Some:
  assumes "CHR ''='' \<in> set e"
  shows "\<exists>k v. SplitN2 e (CHR ''='') = [k, v] \<and> e = k @ CHR ''='' # v \<and> CHR ''='' \<notin> set k
           \<and> entry_kv e = Some (TrimSpace k, TrimSpace v)"
proof -
  from assms obtain m where m: "IndexByte e (CHR ''='') = Some m"
    using IndexByte_None [of e "CHR ''=''"] by auto
  have "SplitN2 e (CHR ''='') = [take m e, drop (Suc m) e]"
    by (simp add: SplitN2_def m)
  moreover have "e = take m e @ CHR ''='' # drop (Suc m) e"
    by (rule IndexByte_cut [OF m])
  moreover have "CHR ''='' \<notin> set (take m e)"
    using IndexByte_Some [OF m] by simp
  moreover have "entry_kv e = Some (TrimSpace (take m e), TrimSpace (drop (Suc m) e))"
    by (simp add: entry_kv_def SplitN2_def m)
  ultimately show ?thesis by blast
qed

lemma entry_kv_value_set: "entry_kv e = Some (k, v) \<Longrightarrow> set v \<subseteq> set e"
proof -
  assume a: "entry_kv e = Some (k, v)"
  then have "CHR ''='' \<in> set e" using entry_kv_None [of e] by auto
  from entry_kv_Some [OF this] a obtain k0 v0 where
    "e = k0 @ CHR ''='' # v0" "v = TrimSpace v0" by auto
  then show ?thesis using set_TrimSpace [of v0] by auto
qed

lemma applyPair_entry_kv:
  "applyPair config pair =
     (case entry_kv pair of
        None \<Rightarrow> config
      | Some (key, val) \<Rightarrow>
          if key = ''template_file'' then config\<lparr>TemplateFile := val\<rparr>
          else if key = ''output_dir'' then config\<lparr>OutputDir := val\<rparr>
          else if key = ''package_name'' then config\<lparr>PackageName := val\<rparr>
          else config)"
  by (simp add: applyPair_def entry_kv_def Let_def)

lemma fieldOf_applyPair:
  "k \<in> recognized \<Longrightarrow>
   fieldOf k (applyPair config pair) =
     (case entry_kv pair of
        None \<Rightarrow> fieldOf k config
      | Some (key, val) \<Rightarrow> if key = k then val else fieldOf k config)"
  by (auto simp: applyPair_entry_kv fieldOf_def recognized_def split: option.splits)

lemma fieldOf_foldl_keep:
  assumes "k \<in> recognized"
    and "\<forall>e\<in>set es. \<forall>v. entry_kv e \<noteq> Some (k, v)"
  shows "fieldOf k (foldl applyPair config es) = fieldOf k config"
  using assms(2)
proof (induction es arbitrary: config)
  case Nil
  then show ?case by simp
next
  case (Cons e es)
  have "fieldOf k (applyPair config e) = fieldOf k config"
    using Cons.prems assms(1) by (auto simp: fieldOf_applyPair split: option.splits)
  with Cons show ?case by simp
qed

lemma fieldOf_foldl_last:
  assumes "k \<in> recognized"
    and "entry_kv e = Some (k, v)"
    and "\<forall>e'\<in>set post. \<forall>v'. entry_kv e' \<noteq> Some (k, v')"
  shows "fieldOf k (foldl applyPair config (pre @ e # post)) = v"
proof -
  have "fieldOf k (foldl applyPair config (pre @ e # post))
        = fieldOf k (applyPair (foldl applyPair config pre) e)"
    using fieldOf_foldl_keep [OF assms(1) assms(3)] by simp
  also have "\<dots> = v"
    using assms(1,2) by (simp add: fieldOf_applyPair)
  finally show ?thesis .
qed

lemma Split_join: "concat (map (\<lambda>e. e @ [c]) (Split s c)) = s @ [c]"
proof (induction s c rule: Split.induct)
  case (1 s sep)
  show ?case
  proof (cases "IndexByte s sep")
    case None
    then show ?thesis by (simp add: Split.simps [of s sep])
  next
    case (Some m)
    have "concat (map (\<lambda>e. e @ [sep]) (Split s sep))
          = take m s @ [sep] @ concat (map (\<lambda>e. e @ [sep]) (Split (drop (Suc m) s) sep))"
      by (simp add: Split.simps [of s sep] Some)
    also have "\<dots> = (take m s @ sep # drop (Suc m) s) @ [sep]"
      using "1.IH" [OF Some] by simp
    also have "\<dots> = s @ [sep]"
      using IndexByte_cut [OF Some] by simp
    finally show ?thesis .
  qed
qed

lemma Split_empty: "Split [] c = [[]]"
  by (simp add: Split.simps [of "[]" c])

lemma entry_kv_empty: "entry_kv [] = None"
  by (simp add: entry_kv_def SplitN2_def)

lemma fieldOf_simps:
  "fieldOf ''template_file'' config = TemplateFile config"
  "fieldOf ''output_dir'' config = OutputDir config"
  "fieldOf ''package_name'' config = PackageName config"
  by (simp_all add: fieldOf_def)

lemma recognized_simps:
  "''template_file'' \<in> recognized" "''output_dir'' \<in> recognized"
  "''package_name'' \<in> recognized"
  by (simp_all add: recognized_def)

lemma TemplateFile_foldl_empty:
  assumes "\<forall>e\<in>set es. \<forall>v. entry_kv e = Some (''template_file'', v) \<longrightarrow> v = ''''"
    and "TemplateFile config = ''''"
  shows "TemplateFile (foldl applyPair config es) = ''''"
  using assms
proof (induction es arbitrary: config)
  case Nil
  then show ?case by simp
next
  case (Cons e es)
  have "TemplateFile (applyPair config e) = ''''"
    using Cons.prems by (auto simp: applyPair_entry_kv split: option.splits)
  with Cons show ?case by simp
qed

lemma no_comma_applyPair:
  assumes "CHR '','' \<notin> set e"
    and "CHR '','' \<notin> set (TemplateFile config) \<and> CHR '','' \<notin> set (OutputDir config)
         \<and> CHR '','' \<notin> set (PackageName config)"
  shows "CHR '','' \<notin> set (TemplateFile (applyPair config e))
         \<and> CHR '','' \<notin> set (OutputDir (applyPair config e))
         \<and> CHR '','' \<notin> set (PackageName (applyPair config e))"
proof (cases "entry_kv e")
  case None
  with assms(2) show ?thesis by (simp add: applyPair_entry_kv)
next
  case (Some kv)
  obtain k v where kv: "kv = (k, v)" by (cases kv)
  with Some entry_kv_value_set [of e k v] assms(1) have "CHR '','' \<notin> set v" by auto
  with assms(2) Some kv show ?thesis by (simp add: applyPair_entry_kv)
qed

lemma no_comma_foldl:
  assumes "\<forall>e\<in>set es. CHR '','' \<notin> set e"
    and "CHR '','' \<notin> set (TemplateFile config) \<and> CHR '','' \<notin> set (OutputDir config)
         \<and> CHR '','' \<notin> set (PackageName config)"
  shows "CHR '','' \<notin> set (TemplateFile (foldl applyPair config es))
         \<and> CHR '','' \<notin> set (OutputDir (foldl applyPair config es))
         \<and> CHR '','' \<notin> set (PackageName (foldl applyPair config es))"
  using assms
proof (induction es arbitrary: config)
  case Nil
  then show ?case by simp
next
  case (Cons e es)
  from Cons.prems have "CHR '','' \<notin> set e" by simp
  from no_comma_applyPair [OF this Cons.prems(2)] Cons.prems(1) Cons.IH [of "applyPair config e"]
  show ?case by simp
qed

lemma entry_kv_template_file:
  "entry_kv (''template_file='' @ X0) = Some (''template_file'', TrimSpace X0)"
proof -
  have s: "SplitN2 (''template_file='' @ X0) (CHR ''='') = [''template_file'', X0]"
    by (simp add: SplitN2_def)
  have t: "TrimSpace ''template_file'' = ''template_file''"
    by code_simp
  show ?thesis
    unfolding entry_kv_def s by (simp add: t)
qed

lemma parsePluginOptions_entry:
  assumes sp: "Split param (CHR '','') = pre @ e # post"
    and kv: "entry_kv e = Some (''template_file'', X)"
    and xne: "X \<noteq> ''''"
    and later: "\<forall>e'\<in>set post. \<forall>v. entry_kv e' \<noteq> Some (''template_file'', v)"
  shows "\<exists>config. parsePluginOptions param = Inr config
             \<and> TemplateFile config = X
             \<and> ((\<forall>e'\<in>set (Split param (CHR '','')). \<forall>v. entry_kv e' \<noteq> Some (''output_dir'', v))
                  \<longrightarrow> OutputDir config = ''local_service_center'')
             \<and> ((\<forall>e'\<in>set (Split param (CHR '','')). \<forall>v. entry_kv e' \<noteq> Some (''package_name'', v))
                  \<longrightarrow> PackageName config = ''local_service_center'')"
proof -
  define config where "config = foldl applyPair defaultConfig (Split param (CHR '',''))"
  have ne: "param \<noteq> ''''"
  proof
    assume "param = ''''"
    with sp have "[[]] = pre @ e # post" by (simp add: Split_empty)
    then have "e = []" by (cases pre) auto
    with kv show False by (simp add: entry_kv_empty)
  qed
  have "fieldOf ''template_file'' config = X"
    unfolding config_def sp
    by (rule fieldOf_foldl_last [OF recognized_simps(1) kv later])
  then have tf: "TemplateFile config = X" by (simp add: fieldOf_simps)
  have ok: "parsePluginOptions param = Inr config"
    using ne tf xne unfolding parsePluginOptions_def config_def Let_def by simp
  have od: "OutputDir config = ''local_service_center''"
    if "\<forall>e'\<in>set (Split param (CHR '','')). \<forall>v. entry_kv e' \<noteq> Some (''output_dir'', v)"
    using fieldOf_foldl_keep [OF recognized_simps(2) that, of defaultConfig]
    by (simp add: fieldOf_simps config_def defaultConfig_def)
  have pn: "PackageName config = ''local_service_center''"
    if "\<forall>e'\<in>set (Split param (CHR '','')). \<forall>v. entry_kv e' \<noteq> Some (''package_name'', v)"
    using fieldOf_foldl_keep [OF recognized_simps(3) that, of defaultConfig]
    by (simp add: fieldOf_simps config_def defaultConfig_def)
  from ok tf od pn show ?thesis by blast
qed

text \<open>
  C1. Parsing the empty parameter fails. If an entry has the key \<open>template_file\<close>
  and, after trimming, the non-empty value \<open>X\<close>, and no later entry has that key,
  parsing succeeds with \<open>TemplateFile = X\<close>; \<open>OutputDir\<close> and \<open>PackageName\<close> are
  \<open>local_service_center\<close> unless an entry has the key \<open>output_dir\<close>, respectively
  \<open>package_name\<close>. An entry written \<open>template_file=X0\<close> is such an entry, with \<open>X0\<close>
  trimmed for \<open>X\<close>. If every entry with the key \<open>template_file\<close> has an empty value
  (in particular if there is none), parsing fails.
\<close>

theorem parsePluginOptions_template_file:
  "parsePluginOptions '''' = Inl MissingParameter
   \<and> (Split param (CHR '','') = pre @ e # post
        \<and> entry_kv e = Some (''template_file'', X) \<and> X \<noteq> ''''
        \<and> (\<forall>e'\<in>set post. \<forall>v. entry_kv e' \<noteq> Some (''template_file'', v))
      \<longrightarrow> (\<exists>config. parsePluginOptions param = Inr config
             \<and> TemplateFile config = X
             \<and> ((\<forall>e'\<in>set (Split param (CHR '','')). \<forall>v. entry_kv e' \<noteq> Some (''output_dir'', v))
                  \<longrightarrow> OutputDir config = ''local_service_center'')
             \<and> ((\<forall>e'\<in>set (Split param (CHR '','')). \<forall>v. entry_kv e' \<noteq> Some (''package_name'', v))
                  \<longrightarrow> PackageName config = ''local_service_center'')))
   \<and> (Split param (CHR '','') = pre @ (''template_file='' @ X0) # post
        \<and> TrimSpace X0 \<noteq> ''''
        \<and> (\<forall>e'\<in>set post. \<forall>v. entry_kv e' \<noteq> Some (''template_file'', v))
      \<longrightarrow> (\<exists>config. parsePluginOptions param = Inr config
             \<and> TemplateFile config = TrimSpace X0))
   \<and> ((\<forall>e'\<in>set (Split param (CHR '','')). \<forall>v. entry_kv e' = Some (''template_file'', v) \<longrightarrow> v = '''')
      \<longrightarrow> (\<exists>err. parsePluginOptions param = Inl err))"
proof (intro conjI impI)
  show "parsePluginOptions '''' = Inl MissingParameter"
    by (simp add: parsePluginOptions_def)
next
  assume "Split param (CHR '','') = pre @ e # post
        \<and> entry_kv e = Some (''template_file'', X) \<and> X \<noteq> ''''
        \<and> (\<forall>e'\<in>set post. \<forall>v. entry_kv e' \<noteq> Some (''template_file'', v))"
  then have sp: "Split param (CHR '','') = pre @ e # post"
    and kv: "entry_kv e = Some (''template_file'', X)"
    and xne: "X \<noteq> ''''"
    and later: "\<forall>e'\<in>set post. \<forall>v. entry_kv e' \<noteq> Some (''template_file'', v)"
    by simp_all
  show "\<exists>config. parsePluginOptions param = Inr config
             \<and> TemplateFile config = X
             \<and> ((\<forall>e'\<in>set (Split param (CHR '','')). \<forall>v. entry_kv e' \<noteq> Some (''output_dir'', v))
                  \<longrightarrow> OutputDir config = ''local_service_center'')
             \<and> ((\<forall>e'\<in>set (Split param (CHR '','')). \<forall>v. entry_kv e' \<noteq> Some (''package_name'', v))
                  \<longrightarrow> PackageName config = ''local_service_center'')"
    by (rule parsePluginOptions_entry [OF sp kv xne later])
next
  assume "Split param (CHR '','') = pre @ (''template_file='' @ X0) # post
        \<and> TrimSpace X0 \<noteq> ''''
        \<and> (\<forall>e'\<in>set post. \<forall>v. entry_kv e' \<noteq> Some (''template_file'', v))"
  then have sp: "Split param (CHR '','') = pre @ (''template_file='' @ X0) # post"
    and xne: "TrimSpace X0 \<noteq> ''''"
    and later: "\<forall>e'\<in>set post. \<forall>v. entry_kv e' \<noteq> Some (''template_file'', v)"
    by simp_all
  from parsePluginOptions_entry [OF sp entry_kv_template_file xne later]
  show "\<exists>config. parsePluginOptions param = Inr config \<and> TemplateFile config = TrimSpace X0"
    by blast
next
  assume a: "\<forall>e'\<in>set (Split param (CHR '','')). \<forall>v. entry_kv e' = Some (''template_file'', v) \<longrightarrow> v = ''''"
  have "TemplateFile (foldl applyPair defaultConfig (Split param (CHR '',''))) = ''''"
    by (rule TemplateFile_foldl_empty [OF a]) (simp add: defaultConfig_def)
  then show "\<exists>err. parsePluginOptions param = Inl err"
    by (simp add: parsePluginOptions_def)
qed

theorem parsePluginOptions_template_file_witness:
  "parsePluginOptions ''template_file= t.tmpl ,junk''
     = Inr \<lparr>TemplateFile = ''t.tmpl'', OutputDir = ''local_service_center'',
            PackageName = ''local_service_center''\<rparr>
   \<and> map_sum id TemplateFile (parsePluginOptions ''x=y,template_file=t.tmpl'') = Inr ''t.tmpl''
   \<and> isl (parsePluginOptions ''output_dir=o,template_file= '')"
proof -
  let ?p = "''template_file= t.tmpl ,junk''"
  have s: "Split ?p (CHR '','') = [] @ ''template_file= t.tmpl '' # [''junk'']"
    by code_simp
  have k: "entry_kv ''template_file= t.tmpl '' = Some (''template_file'', ''t.tmpl'')"
    by code_simp
  have j: "entry_kv ''junk'' = None"
    by code_simp
  have h: "Split ?p (CHR '','') = [] @ ''template_file= t.tmpl '' # [''junk'']
        \<and> entry_kv ''template_file= t.tmpl '' = Some (''template_file'', ''t.tmpl'')
        \<and> ''t.tmpl'' \<noteq> ''''
        \<and> (\<forall>e'\<in>set [''junk'']. \<forall>v. entry_kv e' \<noteq> Some (''template_file'', v))"
    using s k j by simp
  have od: "\<forall>e'\<in>set (Split ?p (CHR '','')). \<forall>v. entry_kv e' \<noteq> Some (''output_dir'', v)"
    using k j by (simp add: s)
  have pn: "\<forall>e'\<in>set (Split ?p (CHR '','')). \<forall>v. entry_kv e' \<noteq> Some (''package_name'', v)"
    using k j by (simp add: s)
  from parsePluginOptions_template_file
         [where param = ?p and pre = "[]" and e = "''template_file= t.tmpl ''"
            and post = "[''junk'']" and X = "''t.tmpl''"] h od pn
  obtain config where "parsePluginOptions ?p = Inr config" "TemplateFile config = ''t.tmpl''"
    "OutputDir config = ''local_service_center''" "PackageName config = ''local_service_center''"
    by blast
  then have first: "parsePluginOptions ?p
     = Inr \<lparr>TemplateFile = ''t.tmpl'', OutputDir = ''local_service_center'',
            PackageName = ''local_service_center''\<rparr>"
    by simp
  let ?q = "''output_dir=o,template_file= ''"
  have s2: "Split ?q (CHR '','') = [''output_dir=o'', ''template_file= '']"
    by code_simp
  have k2: "entry_kv ''output_dir=o'' = Some (''output_dir'', ''o'')"
    "entry_kv ''template_file= '' = Some (''template_file'', '''')"
    by code_simp+
  have "\<forall>e'\<in>set (Split ?q (CHR '','')). \<forall>v. entry_kv e' = Some (''template_file'', v) \<longrightarrow> v = ''''"
    using k2 by (simp add: s2)
  with parsePluginOptions_template_file [where param = ?q]
  have "\<exists>err. parsePluginOptions ?q = Inl err" by blast
  then have third: "isl (parsePluginOptions ?q)" by auto
  let ?r = "''x=y,template_file=t.tmpl''"
  have s3: "Split ?r (CHR '','') = [''x=y''] @ (''template_file='' @ ''t.tmpl'') # []"
    by code_simp
  have t3: "TrimSpace ''t.tmpl'' = ''t.tmpl''"
    by code_simp
  have h3: "Split ?r (CHR '','') = [''x=y''] @ (''template_file='' @ ''t.tmpl'') # []
        \<and> TrimSpace ''t.tmpl'' \<noteq> ''''
        \<and> (\<forall>e'\<in>set []. \<forall>v. entry_kv e' \<noteq> Some (''template_file'', v))"
    using s3 t3 by simp
  from parsePluginOptions_template_file
         [where param = ?r and pre = "[''x=y'']" and ?X0.0 = "''t.tmpl''" and post = "[]"
            and e = "''''" and X = "''''"] h3
  have "\<exists>config. parsePluginOptions ?r = Inr config \<and> TemplateFile config = TrimSpace ''t.tmpl''"
    by blast
  then have second: "map_sum id TemplateFile (parsePluginOptions ?r) = Inr ''t.tmpl''"
    by (auto simp: t3)
  from first second third show ?thesis by simp
qed

text \<open>
  C9. When several entries have the same recognized key, the last one wins: the
  field of the parsed configuration is the trimmed value of the last entry with
  that key. An entry with an empty value, such as \<open>output_dir=\<close>, replaces the
  default by the empty string.
\<close>

theorem parsePluginOptions_last_wins:
  "(Split param (CHR '','') = pre @ e # post
      \<and> entry_kv e = Some (k, v)
      \<and> (\<forall>e'\<in>set post. \<forall>v'. entry_kv e' \<noteq> Some (k, v'))
      \<and> parsePluginOptions param = Inr config
    \<longrightarrow> (k = ''template_file'' \<longrightarrow> TemplateFile config = v)
        \<and> (k = ''output_dir'' \<longrightarrow> OutputDir config = v)
        \<and> (k = ''package_name'' \<longrightarrow> PackageName config = v))
   \<and> parsePluginOptions ''template_file=t.tmpl,output_dir=''
       = Inr \<lparr>TemplateFile = ''t.tmpl'', OutputDir = '''',
              PackageName = ''local_service_center''\<rparr>"
proof (intro conjI impI)
  show "parsePluginOptions ''template_file=t.tmpl,output_dir=''
       = Inr \<lparr>TemplateFile = ''t.tmpl'', OutputDir = '''',
              PackageName = ''local_service_center''\<rparr>"
    by code_simp
next
  assume a: "Split param (CHR '','') = pre @ e # post
      \<and> entry_kv e = Some (k, v)
      \<and> (\<forall>e'\<in>set post. \<forall>v'. entry_kv e' \<noteq> Some (k, v'))
      \<and> parsePluginOptions param = Inr config"
  then have sp: "Split param (CHR '','') = pre @ e # post"
    and kv: "entry_kv e = Some (k, v)"
    and later: "\<forall>e'\<in>set post. \<forall>v'. entry_kv e' \<noteq> Some (k, v')"
    and ok: "parsePluginOptions param = Inr config"
    by simp_all
  from ok have config: "config = foldl applyPair defaultConfig (pre @ e # post)"
    by (auto simp: parsePluginOptions_def Let_def sp split: if_splits)
  have wins: "fieldOf k config = v" if "k \<in> recognized"
    unfolding config by (rule fieldOf_foldl_last [OF that kv later])
  show "k = ''template_file'' \<Longrightarrow> TemplateFile config = v"
    using wins by (simp add: recognized_simps fieldOf_simps)
  show "k = ''output_dir'' \<Longrightarrow> OutputDir config = v"
    using wins by (simp add: recognized_simps fieldOf_simps)
  show "k = ''package_name'' \<Longrightarrow> PackageName config = v"
    using wins by (simp add: recognized_simps fieldOf_simps)
qed

theorem parsePluginOptions_last_wins_witness:
  "Split ''output_dir=a,template_file=t,output_dir=,x=y'' (CHR '','')
     = [''output_dir=a'', ''template_file=t''] @ ''output_dir='' # [''x=y'']
   \<and> entry_kv ''output_dir='' = Some (''output_dir'', '''')
   \<and> parsePluginOptions ''output_dir=a,template_file=t,output_dir=,x=y''
       = Inr \<lparr>TemplateFile = ''t'', OutputDir = '''',
              PackageName = ''local_service_center''\<rparr>
   \<and> OutputDir \<lparr>TemplateFile = ''t'', OutputDir = '''',
                 PackageName = ''local_service_center''\<rparr> = ''''"
proof -
  let ?p = "''output_dir=a,template_file=t,output_dir=,x=y''"
  let ?c = "\<lparr>TemplateFile = ''t'', OutputDir = '''', PackageName = ''local_service_center''\<rparr>"
  have s: "Split ?p (CHR '','')
     = [''output_dir=a'', ''template_file=t''] @ ''output_dir='' # [''x=y'']"
    by code_simp
  have k: "entry_kv ''output_dir='' = Some (''output_dir'', '''')"
    by code_simp
  have x: "entry_kv ''x=y'' = Some (''x'', ''y'')"
    by code_simp
  have later: "\<forall>e'\<in>set [''x=y'']. \<forall>v'. entry_kv e' \<noteq> Some (''output_dir'', v')"
    using x by simp
  have ok: "parsePluginOptions ?p = Inr ?c"
    by code_simp
  from parsePluginOptions_last_wins
         [where param = ?p and pre = "[''output_dir=a'', ''template_file=t'']"
            and e = "''output_dir=''" and post = "[''x=y'']" and k = "''output_dir''"
            and v = "''''" and config = ?c] s k later ok
  have "OutputDir ?c = ''''" by blast
  with s k ok show ?thesis by blast
qed

text \<open>
  C8 does not hold as stated: an entry is cut at its first \<open>=\<close> only, so a value
  keeps every later \<open>=\<close>.
\<close>

theorem parsePluginOptions_equals_sign_counterexample:
  "parsePluginOptions ''template_file=a=b''
     = Inr \<lparr>TemplateFile = ''a=b'', OutputDir = ''local_service_center'',
            PackageName = ''local_service_center''\<rparr>
   \<and> CHR ''='' \<in> set (TemplateFile \<lparr>TemplateFile = ''a=b'',
          OutputDir = ''local_service_center'', PackageName = ''local_service_center''\<rparr>)"
  by code_simp

text \<open>
  C8, amended. No field of a parsed configuration contains a comma. An entry
  without \<open>=\<close> is skipped. An entry with \<open>=\<close> is cut at the first one: the key has
  no \<open>=\<close>, the value is all the rest (and may contain \<open>=\<close>), and both are trimmed.
\<close>

theorem parsePluginOptions_no_comma:
  "(parsePluginOptions param = Inr config
      \<longrightarrow> CHR '','' \<notin> set (TemplateFile config) \<and> CHR '','' \<notin> set (OutputDir config)
          \<and> CHR '','' \<notin> set (PackageName config))
   \<and> (CHR ''='' \<notin> set e \<longrightarrow> applyPair c e = c)
   \<and> (CHR ''='' \<in> set e
      \<longrightarrow> (\<exists>k v. e = k @ CHR ''='' # v \<and> CHR ''='' \<notin> set k
                 \<and> entry_kv e = Some (TrimSpace k, TrimSpace v)))"
proof (intro conjI impI)
  assume ok: "parsePluginOptions param = Inr config"
  then have config: "config = foldl applyPair defaultConfig (Split param (CHR '',''))"
    by (auto simp: parsePluginOptions_def Let_def split: if_splits)
  have "\<forall>e\<in>set (Split param (CHR '','')). CHR '','' \<notin> set e"
    using Split_no_sep by blast
  from no_comma_foldl [OF this, of defaultConfig]
  have "CHR '','' \<notin> set (TemplateFile config) \<and> CHR '','' \<notin> set (OutputDir config)
          \<and> CHR '','' \<notin> set (PackageName config)"
    unfolding config by (simp add: defaultConfig_def)
  then show "CHR '','' \<notin> set (TemplateFile config)" "CHR '','' \<notin> set (OutputDir config)"
    "CHR '','' \<notin> set (PackageName config)"
    by simp_all
next
  assume "CHR ''='' \<notin> set e"
  then show "applyPair c e = c"
    by (simp add: applyPair_entry_kv entry_kv_None)
next
  assume "CHR ''='' \<in> set e"
  from entry_kv_Some [OF this]
  show "\<exists>k v. e = k @ CHR ''='' # v \<and> CHR ''='' \<notin> set k
                 \<and> entry_kv e = Some (TrimSpace k, TrimSpace v)"
    by blast
qed

theorem parsePluginOptions_no_comma_witness:
  "parsePluginOptions ''template_file=a=b,c''
     = Inr \<lparr>TemplateFile = ''a=b'', OutputDir = ''local_service_center'',
            PackageName = ''local_service_center''\<rparr>
   \<and> CHR '','' \<notin> set ''a=b''
   \<and> CHR ''='' \<notin> set ''junk''
   \<and> applyPair defaultConfig ''junk'' = defaultConfig
   \<and> CHR ''='' \<in> set '' k = v=w ''
   \<and> entry_kv '' k = v=w '' = Some (''k'', ''v=w'')"
proof -
  let ?c = "\<lparr>TemplateFile = ''a=b'', OutputDir = ''local_service_center'',
            PackageName = ''local_service_center''\<rparr>"
  have ok: "parsePluginOptions ''template_file=a=b,c'' = Inr ?c"
    by code_simp
  have j: "CHR ''='' \<notin> set ''junk''" by simp
  have m: "CHR ''='' \<in> set '' k = v=w ''" by simp
  note t = parsePluginOptions_no_comma
             [where param = "''template_file=a=b,c''" and config = ?c
                and e = "''junk''" and c = defaultConfig]
  from t ok have "CHR '','' \<notin> set (TemplateFile ?c)" by blast
  then have 1: "CHR '','' \<notin> set ''a=b''" by simp
  from t j have 2: "applyPair defaultConfig ''junk'' = defaultConfig" by blast
  have 3: "entry_kv '' k = v=w '' = Some (''k'', ''v=w'')" by code_simp
  from ok 1 j 2 m 3 show ?thesis by blast
qed

section \<open>Naming: suffix, prefix and case\<close>

lemma HasSuffix_iff: "HasSuffix s suf \<longleftrightarrow> suffix suf s"
proof
  assume "HasSuffix s suf"
  then have "s = take (length s - length suf) s @ suf"
    by (metis HasSuffix_def append_take_drop_id)
  then show "suffix suf s" by (rule suffixI)
next
  assume "suffix suf s"
  then obtain n where "s = n @ suf" by (auto simp: suffix_def)
  then show "HasSuffix s suf" by (simp add: HasSuffix_def)
qed

lemma HasPrefix_iff: "HasPrefix s pre \<longleftrightarrow> prefix pre s"
proof
  assume "HasPrefix s pre"
  then have "s = pre @ drop (length pre) s"
    by (metis HasPrefix_def append_take_drop_id)
  then show "prefix pre s" by (rule prefixI)
next
  assume "prefix pre s"
  then obtain r where "s = pre @ r" by (auto simp: prefix_def)
  then show "HasPrefix s pre" by (simp add: HasPrefix_def)
qed

lemma TrimSuffix_append: "TrimSuffix (n @ suf) suf = n"
  by (simp add: TrimSuffix_def HasSuffix_def)

lemma TrimSuffix_absent: "\<not> suffix suf s \<Longrightarrow> TrimSuffix s suf = s"
  by (simp add: TrimSuffix_def HasSuffix_iff)

lemma TrimPrefix_append: "TrimPrefix (pre @ r) pre = r"
  by (simp add: TrimPrefix_def HasPrefix_def)

lemma TrimPrefix_absent: "\<not> prefix pre s \<Longrightarrow> TrimPrefix s pre = s"
  by (simp add: TrimPrefix_def HasPrefix_iff)

text \<open>
  C2. The derived service name is the declared name without one trailing
  \<open>Service\<close>, and the declared name itself when it does not end in \<open>Service\<close>. The
  service named \<open>Service\<close> gives the empty name; of a name that ends in
  \<open>ServiceService\<close> only the last \<open>Service\<close> is removed.
\<close>

theorem serviceName_of_suffix:
  "serviceName_of \<lparr>DescName = n @ ''Service''\<rparr> = n
   \<and> (\<not> suffix ''Service'' (DescName service) \<longrightarrow> serviceName_of service = DescName service)
   \<and> serviceName_of \<lparr>DescName = ''Service''\<rparr> = ''''
   \<and> serviceName_of \<lparr>DescName = n @ ''ServiceService''\<rparr> = n @ ''Service''"
proof (intro conjI impI)
  show "serviceName_of \<lparr>DescName = n @ ''Service''\<rparr> = n"
    by (simp add: serviceName_of_def TrimSuffix_append)
  show "serviceName_of service = DescName service"
    if "\<not> suffix ''Service'' (DescName service)"
    using that by (simp add: serviceName_of_def TrimSuffix_absent)
  show "serviceName_of \<lparr>DescName = ''Service''\<rparr> = ''''"
    using TrimSuffix_append [of "''''" "''Service''"] by (simp add: serviceName_of_def)
  have "TrimSuffix ((n @ ''Service'') @ ''Service'') ''Service'' = n @ ''Service''"
    by (rule TrimSuffix_append)
  then show "serviceName_of \<lparr>DescName = n @ ''ServiceService''\<rparr> = n @ ''Service''"
    by (simp add: serviceName_of_def)
qed

theorem serviceName_of_suffix_witness:
  "\<not> suffix ''Service'' ''Services''
   \<and> serviceName_of \<lparr>DescName = ''Services''\<rparr> = ''Services''
   \<and> serviceName_of \<lparr>DescName = ''OrderService''\<rparr> = ''Order''"
proof -
  have a: "\<not> suffix ''Service'' (DescName \<lparr>DescName = ''Services''\<rparr>)"
    by (simp add: suffix_Cons)
  from serviceName_of_suffix [where service = "\<lparr>DescName = ''Services''\<rparr>" and n = "''Order''"] a
  have "serviceName_of \<lparr>DescName = ''Services''\<rparr> = ''Services''"
    and "serviceName_of \<lparr>DescName = ''OrderService''\<rparr> = ''Order''"
    by simp_all
  with a show ?thesis by simp
qed

text \<open>
  C3. \<open>protoPackageName\<close> of \<open>main.go\<close>: the result is the package name with
  \<open>proto_\<close> trimmed from its front when that changes the name, and with \<open>proto.\<close>
  trimmed from its front exactly when it does not. So a leading \<open>proto_\<close> is
  removed, else a leading \<open>proto.\<close>; with neither the package name is unchanged.
  One prefix at most is removed: what follows the removed prefix is kept as it
  is, and a result with neither prefix is a fixed point.
\<close>

theorem protoPackageName_of_prefix:
  "(TrimPrefix (GoPackageName f) ''proto_'' \<noteq> GoPackageName f
      \<longrightarrow> protoPackageName_of f = TrimPrefix (GoPackageName f) ''proto_'')
   \<and> (TrimPrefix (GoPackageName f) ''proto_'' = GoPackageName f
      \<longrightarrow> protoPackageName_of f = TrimPrefix (GoPackageName f) ''proto.'')
   \<and> protoPackageName_of (f\<lparr>GoPackageName := ''proto_'' @ r\<rparr>) = r
   \<and> protoPackageName_of (f\<lparr>GoPackageName := ''proto.'' @ r\<rparr>) = r
   \<and> (\<not> prefix ''proto_'' (GoPackageName f) \<and> \<not> prefix ''proto.'' (GoPackageName f)
      \<longrightarrow> protoPackageName_of f = GoPackageName f
          \<and> protoPackageName_of (f\<lparr>GoPackageName := protoPackageName_of f\<rparr>)
              = protoPackageName_of f)"
proof (intro conjI impI)
  show "protoPackageName_of f = TrimPrefix (GoPackageName f) ''proto_''"
    if "TrimPrefix (GoPackageName f) ''proto_'' \<noteq> GoPackageName f"
    using that by (simp add: protoPackageName_of_def)
  show "protoPackageName_of f = TrimPrefix (GoPackageName f) ''proto.''"
    if "TrimPrefix (GoPackageName f) ''proto_'' = GoPackageName f"
    using that by (simp add: protoPackageName_of_def)
next
  have "TrimPrefix (''proto_'' @ r) ''proto_'' = r"
    by (rule TrimPrefix_append)
  moreover have "r \<noteq> ''proto_'' @ r"
    using arg_cong [of r "''proto_'' @ r" length] by auto
  ultimately show "protoPackageName_of (f\<lparr>GoPackageName := ''proto_'' @ r\<rparr>) = r"
    by (simp add: protoPackageName_of_def)
next
  have "\<not> prefix ''proto_'' (''proto.'' @ r)"
    by simp
  then have "TrimPrefix (''proto.'' @ r) ''proto_'' = ''proto.'' @ r"
    by (rule TrimPrefix_absent)
  moreover have "TrimPrefix (''proto.'' @ r) ''proto.'' = r"
    by (rule TrimPrefix_append)
  ultimately show "protoPackageName_of (f\<lparr>GoPackageName := ''proto.'' @ r\<rparr>) = r"
    by (simp add: protoPackageName_of_def)
next
  assume a: "\<not> prefix ''proto_'' (GoPackageName f) \<and> \<not> prefix ''proto.'' (GoPackageName f)"
  then show same: "protoPackageName_of f = GoPackageName f"
    by (simp add: protoPackageName_of_def TrimPrefix_absent)
  then have "f\<lparr>GoPackageName := protoPackageName_of f\<rparr> = f" by simp
  then show "protoPackageName_of (f\<lparr>GoPackageName := protoPackageName_of f\<rparr>)
              = protoPackageName_of f"
    by simp
qed

theorem protoPackageName_of_prefix_witness:
  "protoPackageName_of \<lparr>Generate = True, GoPackageName = ''proto_order'',
        GoImportPath = '''', Services = []\<rparr> = ''order''
   \<and> protoPackageName_of \<lparr>Generate = True, GoPackageName = ''proto.order'',
        GoImportPath = '''', Services = []\<rparr> = ''order''
   \<and> protoPackageName_of \<lparr>Generate = True, GoPackageName = ''proto_proto.x'',
        GoImportPath = '''', Services = []\<rparr> = ''proto.x''
   \<and> protoPackageName_of \<lparr>Generate = True, GoPackageName = ''protox'',
        GoImportPath = '''', Services = []\<rparr> = ''protox''"
proof -
  let ?g = "\<lparr>Generate = True, GoPackageName = ''proto_order'', GoImportPath = '''', Services = []\<rparr>"
  let ?h = "\<lparr>Generate = True, GoPackageName = ''proto.order'', GoImportPath = '''', Services = []\<rparr>"
  let ?f = "\<lparr>Generate = True, GoPackageName = ''protox'', GoImportPath = '''', Services = []\<rparr>"
  have g: "TrimPrefix (GoPackageName ?g) ''proto_'' \<noteq> GoPackageName ?g"
    by (simp add: TrimPrefix_def HasPrefix_def)
  have h: "TrimPrefix (GoPackageName ?h) ''proto_'' = GoPackageName ?h"
    by (simp add: TrimPrefix_def HasPrefix_def)
  have b: "\<not> prefix ''proto_'' (GoPackageName ?f) \<and> \<not> prefix ''proto.'' (GoPackageName ?f)"
    by simp
  from protoPackageName_of_prefix [where f = ?g] g
  have "protoPackageName_of ?g = TrimPrefix (GoPackageName ?g) ''proto_''"
    by blast
  then have 1: "protoPackageName_of ?g = ''order''"
    by (simp add: TrimPrefix_def HasPrefix_def)
  from protoPackageName_of_prefix [where f = ?h] h
  have "protoPackageName_of ?h = TrimPrefix (GoPackageName ?h) ''proto.''"
    by blast
  then have 2: "protoPackageName_of ?h = ''order''"
    by (simp add: TrimPrefix_def HasPrefix_def)
  from protoPackageName_of_prefix [where f = ?f and r = "''proto.x''"]
  have 3: "protoPackageName_of (?f\<lparr>GoPackageName := ''proto_'' @ ''proto.x''\<rparr>) = ''proto.x''"
    by blast
  from protoPackageName_of_prefix [where f = ?f] b
  have 4: "protoPackageName_of ?f = GoPackageName ?f"
    by blast
  from 1 2 3 4 show ?thesis by simp
qed

lemma byte_less_256: "byte c < 256"
  by (simp add: byte_def)

lemma char_of_byte: "char_of (byte c) = c"
  by (simp add: byte_def)

lemma byte_char_of: "n < 256 \<Longrightarrow> byte (char_of n) = n"
  by (simp add: byte_def)

lemma toCamelCase_upper:
  assumes "65 \<le> byte c" and "byte c \<le> 90"
  shows "toCamelCase (c # cs) = char_of (byte c + 32) # cs"
  using assms by (simp add: toCamelCase_def byte_def string_of_byte_def Let_def)

lemma toCamelCase_other:
  assumes "\<not> (65 \<le> byte c \<and> byte c \<le> 90)"
  shows "toCamelCase (c # cs) = c # cs"
  using assms by (auto simp: toCamelCase_def byte_def Let_def)

lemma toCamelCase_idem: "toCamelCase (toCamelCase s) = toCamelCase s"
proof (cases s)
  case Nil
  then show ?thesis by (simp add: toCamelCase_def)
next
  case (Cons c cs)
  show ?thesis
  proof (cases "65 \<le> byte c \<and> byte c \<le> 90")
    case True
    then have "toCamelCase s = char_of (byte c + 32) # cs"
      using Cons by (simp add: toCamelCase_upper)
    moreover from True have "byte (char_of (byte c + 32)) = byte c + 32"
      by (simp add: byte_char_of)
    with True have "\<not> (65 \<le> byte (char_of (byte c + 32)) \<and> byte (char_of (byte c + 32)) \<le> 90)"
      by simp
    ultimately show ?thesis by (simp add: toCamelCase_other)
  next
    case False
    then show ?thesis using Cons by (simp add: toCamelCase_other)
  qed
qed

text \<open>
  C10. \<open>toCamelCase\<close> returns its input unless the first byte is one of \<open>A\<close>..\<open>Z\<close>
  (65 to 90); then that byte alone is replaced, by the byte 32 above it, which is
  the lower-case letter. It is idempotent, maps the empty string to itself, and
  leaves a string alone whose first byte is not ASCII (128 or more), such as the
  first byte of an upper-case letter outside ASCII in UTF-8.
\<close>

theorem toCamelCase_first_byte:
  "(s = [] \<or> \<not> (65 \<le> byte (hd s) \<and> byte (hd s) \<le> 90) \<longrightarrow> toCamelCase s = s)
   \<and> (65 \<le> byte c \<and> byte c \<le> 90
      \<longrightarrow> toCamelCase (c # cs) = char_of (byte c + 32) # cs)
   \<and> (i < 26 \<longrightarrow> toCamelCase ((''ABCDEFGHIJKLMNOPQRSTUVWXYZ'' ! i) # cs)
                   = (''abcdefghijklmnopqrstuvwxyz'' ! i) # cs)
   \<and> toCamelCase (toCamelCase s) = toCamelCase s
   \<and> toCamelCase '''' = ''''
   \<and> (128 \<le> byte c \<longrightarrow> toCamelCase (c # cs) = c # cs)"
proof (intro conjI impI)
  assume "s = [] \<or> \<not> (65 \<le> byte (hd s) \<and> byte (hd s) \<le> 90)"
  then show "toCamelCase s = s"
    by (cases s) (auto simp: toCamelCase_def byte_def Let_def)
next
  assume "65 \<le> byte c \<and> byte c \<le> 90"
  then show "toCamelCase (c # cs) = char_of (byte c + 32) # cs"
    by (simp add: toCamelCase_upper)
next
  assume "i < 26"
  then have "i \<in> {0, 1, 2, 3, 4, 5, 6, 7, 8, 9, 10, 11, 12, 13, 14, 15, 16, 17, 18, 19,
                   20, 21, 22, 23, 24, 25}"
    by simp arith
  then show "toCamelCase ((''ABCDEFGHIJKLMNOPQRSTUVWXYZ'' ! i) # cs)
                   = (''abcdefghijklmnopqrstuvwxyz'' ! i) # cs"
    by (auto simp: toCamelCase_def byte_def string_of_byte_def Let_def char_of_eq_iff)
next
  show "toCamelCase (toCamelCase s) = toCamelCase s"
    by (rule toCamelCase_idem)
  show "toCamelCase '''' = ''''"
    by (simp add: toCamelCase_def)
next
  assume "128 \<le> byte c"
  then show "toCamelCase (c # cs) = c # cs"
    by (simp add: toCamelCase_other)
qed

theorem toCamelCase_first_byte_witness:
  "toCamelCase ''prepareOrder'' = ''prepareOrder''
   \<and> toCamelCase ''PrepareOrder'' = ''prepareOrder''
   \<and> toCamelCase ''ZOrder'' = ''zOrder''
   \<and> toCamelCase [CHR 0xC3, CHR 0x89, CHR ''A''] = [CHR 0xC3, CHR 0x89, CHR ''A'']"
proof -
  have 1: "''prepareOrder'' = [] \<or> \<not> (65 \<le> byte (hd ''prepareOrder'') \<and> byte (hd ''prepareOrder'') \<le> 90)"
    by (simp add: byte_def)
  have 2: "65 \<le> byte (CHR ''P'') \<and> byte (CHR ''P'') \<le> 90"
    by (simp add: byte_def)
  have 3: "(25::nat) < 26" by simp
  have 4: "128 \<le> byte (CHR 0xC3)" by (simp add: byte_def)
  from toCamelCase_first_byte [where s = "''prepareOrder''"] 1
  have a: "toCamelCase ''prepareOrder'' = ''prepareOrder''" by blast
  from toCamelCase_first_byte [where c = "CHR ''P''" and cs = "''repareOrder''"] 2
  have "toCamelCase ''PrepareOrder'' = char_of (byte (CHR ''P'') + 32) # ''repareOrder''"
    by blast
  moreover have "char_of (byte (CHR ''P'') + 32) = CHR ''p''"
    by code_simp
  ultimately have b: "toCamelCase ''PrepareOrder'' = ''prepareOrder''"
    by simp
  from toCamelCase_first_byte [where i = 25 and cs = "''Order''"] 3
  have "toCamelCase ((''ABCDEFGHIJKLMNOPQRSTUVWXYZ'' ! 25) # ''Order'')
          = (''abcdefghijklmnopqrstuvwxyz'' ! 25) # ''Order''"
    by blast
  then have c: "toCamelCase ''ZOrder'' = ''zOrder''" by simp
  from toCamelCase_first_byte [where c = "CHR 0xC3" and cs = "[CHR 0x89, CHR ''A'']"] 4
  have d: "toCamelCase [CHR 0xC3, CHR 0x89, CHR ''A''] = [CHR 0xC3, CHR 0x89, CHR ''A'']"
    by blast
  from a b c d show ?thesis by blast
qed

section \<open>Loading, rendering and emitting\<close>

lemma loadTemplate_not_exist:
  assumes "osStat env (TemplateFile config) = Some ENOENT"
  shows "loadTemplate env config gen =
           (logEvent (Stat (TemplateFile config)) gen,
            Inl (TemplateNotFound (TemplateFile config)))"
  using assms by (simp add: loadTemplate_def IsNotExist_def)

lemma loadTemplate_exists:
  assumes "osStat env (TemplateFile config) \<noteq> Some ENOENT"
  shows "loadTemplate env config gen =
           (logEvent (ReadFile (TemplateFile config)) (logEvent (Stat (TemplateFile config)) gen),
            case readFile env (TemplateFile config) of
              Inl err \<Rightarrow> Inl (TemplateReadError err)
            | Inr content \<Rightarrow> Inr content)"
  using assms by (simp add: loadTemplate_def IsNotExist_def Let_def split: sum.splits)

lemma resolve_errors: "resolve fs at cs = Inl err \<Longrightarrow> err = ENOENT \<or> err = ENOTDIR"
  by (induction cs arbitrary: at) (auto split: option.splits node.splits)

lemma osStat_onFileSystem: "osStat (onFileSystem fs env) = fsStat fs"
  by (simp add: onFileSystem_def)

lemma readFile_onFileSystem: "readFile (onFileSystem fs env) = fsReadFile fs"
  by (simp add: onFileSystem_def)

text \<open>
  How \<open>loadTemplate\<close> ends on a file system, by what the path resolves to.
\<close>

lemma loadTemplate_onFileSystem:
  "snd (loadTemplate (onFileSystem fs env) config gen) =
     (case lookupPath fs (TemplateFile config) of
        Inl err \<Rightarrow>
          if err = ENOENT then Inl (TemplateNotFound (TemplateFile config))
          else Inl (TemplateReadError err)
      | Inr Directory \<Rightarrow> Inl (TemplateReadError EISDIR)
      | Inr (RegularFile content readable) \<Rightarrow>
          if readable then Inr content else Inl (TemplateReadError EACCES))"
proof (cases "fsStat fs (TemplateFile config) = Some ENOENT")
  case True
  then have "osStat (onFileSystem fs env) (TemplateFile config) = Some ENOENT"
    by (simp add: osStat_onFileSystem)
  from loadTemplate_not_exist [OF this, of gen] True show ?thesis
    by (auto simp: fsStat_def split: sum.splits)
next
  case False
  then have "osStat (onFileSystem fs env) (TemplateFile config) \<noteq> Some ENOENT"
    by (simp add: osStat_onFileSystem)
  from loadTemplate_exists [OF this, of gen] False show ?thesis
    by (auto simp: fsStat_def fsReadFile_def readFile_onFileSystem
        split: sum.splits node.splits)
qed

text \<open>
  C7 does not hold as stated: the path \<open>t.tmpl/x\<close>, under the regular file
  \<open>t.tmpl\<close>, does not exist; \<open>os.Stat\<close> fails on it with \<open>ENOTDIR\<close>, of which
  \<open>os.IsNotExist\<close> does not hold, and \<open>loadTemplate\<close> goes on to read and fails with
  the read error.
\<close>

theorem loadTemplate_not_a_directory_counterexample:
  "\<not> pathExists demoFs ''t.tmpl/x''
   \<and> snd (loadTemplate (demoEnv :: (string, ServiceInfo) env)
            (demoConfig\<lparr>TemplateFile := ''t.tmpl/x''\<rparr>) (demoPlugin []))
       = Inl (TemplateReadError ENOTDIR)
   \<and> TemplateReadError ENOTDIR \<noteq> TemplateNotFound ''t.tmpl/x''"
  by code_simp

text \<open>
  C7, amended. \<open>loadTemplate\<close> fails with the not-found error exactly when
  \<open>os.Stat\<close> on the path of the configuration fails with \<open>ENOENT\<close>, the one error
  \<open>os.IsNotExist\<close> accepts, and then it does not read the file; otherwise it
  reads, and fails with the read error, which is another error, when reading
  fails, and returns the content when reading succeeds. On a file system: a path
  that exists never gives the not-found error; a path with a missing component
  gives it; a path under a regular file, which does not exist either, gives the
  read error, as do a directory and a file that may not be read; a file that may
  be read gives its content.
\<close>

theorem loadTemplate_results:
  "(snd (loadTemplate env config gen) = Inl (TemplateNotFound p)
      \<longleftrightarrow> osStat env (TemplateFile config) = Some ENOENT \<and> p = TemplateFile config)
   \<and> (osStat env (TemplateFile config) = Some ENOENT
      \<longrightarrow> trace (fst (loadTemplate env config gen)) = trace gen @ [Stat (TemplateFile config)])
   \<and> (osStat env (TemplateFile config) \<noteq> Some ENOENT
        \<and> readFile env (TemplateFile config) = Inl err
      \<longrightarrow> snd (loadTemplate env config gen) = Inl (TemplateReadError err))
   \<and> (osStat env (TemplateFile config) \<noteq> Some ENOENT
        \<and> readFile env (TemplateFile config) = Inr content
      \<longrightarrow> snd (loadTemplate env config gen) = Inr content)
   \<and> TemplateNotFound p \<noteq> TemplateReadError err
   \<and> (pathExists fs (TemplateFile config)
      \<longrightarrow> snd (loadTemplate (onFileSystem fs env) config gen) \<noteq> Inl (TemplateNotFound p))
   \<and> (lookupPath fs (TemplateFile config) = Inl ENOENT
      \<longrightarrow> snd (loadTemplate (onFileSystem fs env) config gen)
            = Inl (TemplateNotFound (TemplateFile config)))
   \<and> (lookupPath fs (TemplateFile config) = Inl ENOTDIR
      \<longrightarrow> \<not> pathExists fs (TemplateFile config)
          \<and> snd (loadTemplate (onFileSystem fs env) config gen)
            = Inl (TemplateReadError ENOTDIR))
   \<and> (lookupPath fs (TemplateFile config) = Inr Directory
      \<longrightarrow> snd (loadTemplate (onFileSystem fs env) config gen)
            = Inl (TemplateReadError EISDIR))
   \<and> (lookupPath fs (TemplateFile config) = Inr (RegularFile content False)
      \<longrightarrow> snd (loadTemplate (onFileSystem fs env) config gen)
            = Inl (TemplateReadError EACCES))
   \<and> (lookupPath fs (TemplateFile config) = Inr (RegularFile content True)
      \<longrightarrow> snd (loadTemplate (onFileSystem fs env) config gen) = Inr content)"
proof -
  have general:
    "(snd (loadTemplate env config gen) = Inl (TemplateNotFound p)
      \<longleftrightarrow> osStat env (TemplateFile config) = Some ENOENT \<and> p = TemplateFile config)
     \<and> (osStat env (TemplateFile config) = Some ENOENT
      \<longrightarrow> trace (fst (loadTemplate env config gen)) = trace gen @ [Stat (TemplateFile config)])
     \<and> (osStat env (TemplateFile config) \<noteq> Some ENOENT
        \<and> readFile env (TemplateFile config) = Inl err
      \<longrightarrow> snd (loadTemplate env config gen) = Inl (TemplateReadError err))
     \<and> (osStat env (TemplateFile config) \<noteq> Some ENOENT
        \<and> readFile env (TemplateFile config) = Inr content
      \<longrightarrow> snd (loadTemplate env config gen) = Inr content)"
  proof (cases "osStat env (TemplateFile config) = Some ENOENT")
    case True
    from loadTemplate_not_exist [OF True, of gen] True show ?thesis
      by (auto simp: logEvent_def)
  next
    case False
    from loadTemplate_exists [OF False, of gen] False show ?thesis
      by (auto split: sum.splits)
  qed
  note fs = loadTemplate_onFileSystem [of fs env config gen]
  have exists: "snd (loadTemplate (onFileSystem fs env) config gen) \<noteq> Inl (TemplateNotFound p)"
    if "pathExists fs (TemplateFile config)"
    using that fs by (auto simp: pathExists_def split: sum.splits node.splits if_splits)
  have missing: "snd (loadTemplate (onFileSystem fs env) config gen)
            = Inl (TemplateNotFound (TemplateFile config))"
    if "lookupPath fs (TemplateFile config) = Inl ENOENT"
    using that fs by simp
  have notdir: "\<not> pathExists fs (TemplateFile config)
          \<and> snd (loadTemplate (onFileSystem fs env) config gen)
            = Inl (TemplateReadError ENOTDIR)"
    if "lookupPath fs (TemplateFile config) = Inl ENOTDIR"
    using that fs by (simp add: pathExists_def)
  have isdir: "snd (loadTemplate (onFileSystem fs env) config gen)
            = Inl (TemplateReadError EISDIR)"
    if "lookupPath fs (TemplateFile config) = Inr Directory"
    using that fs by simp
  have locked: "snd (loadTemplate (onFileSystem fs env) config gen)
            = Inl (TemplateReadError EACCES)"
    if "lookupPath fs (TemplateFile config) = Inr (RegularFile content False)"
    using that fs by simp
  have readable: "snd (loadTemplate (onFileSystem fs env) config gen) = Inr content"
    if "lookupPath fs (TemplateFile config) = Inr (RegularFile content True)"
    using that fs by simp
  from general exists missing notdir isdir locked readable show ?thesis
    by simp
qed

theorem loadTemplate_results_witness:
  "snd (loadTemplate (onFileSystem demoFs (demoEnv :: (string, ServiceInfo) env))
          (demoConfig\<lparr>TemplateFile := ''templates/none.tmpl''\<rparr>) (demoPlugin []))
     = Inl (TemplateNotFound ''templates/none.tmpl'')
   \<and> snd (loadTemplate (onFileSystem demoFs (demoEnv :: (string, ServiceInfo) env))
          (demoConfig\<lparr>TemplateFile := ''t.tmpl/x''\<rparr>) (demoPlugin []))
     = Inl (TemplateReadError ENOTDIR)
   \<and> snd (loadTemplate (onFileSystem demoFs (demoEnv :: (string, ServiceInfo) env))
          (demoConfig\<lparr>TemplateFile := ''templates''\<rparr>) (demoPlugin []))
     = Inl (TemplateReadError EISDIR)
   \<and> snd (loadTemplate (onFileSystem demoFs (demoEnv :: (string, ServiceInfo) env))
          (demoConfig\<lparr>TemplateFile := ''locked.tmpl''\<rparr>) (demoPlugin []))
     = Inl (TemplateReadError EACCES)
   \<and> snd (loadTemplate (onFileSystem demoFs (demoEnv :: (string, ServiceInfo) env)) demoConfig (demoPlugin []))
     = Inr ''package x; type ''
   \<and> snd (loadTemplate (demoEnv :: (string, ServiceInfo) env) demoConfig (demoPlugin [])) = Inr ''package x; type ''"
proof -
  let ?ea = "demoEnv :: (string, ServiceInfo) env"
  let ?n = "demoConfig\<lparr>TemplateFile := ''templates/none.tmpl''\<rparr>"
  let ?x = "demoConfig\<lparr>TemplateFile := ''t.tmpl/x''\<rparr>"
  let ?d = "demoConfig\<lparr>TemplateFile := ''templates''\<rparr>"
  let ?l = "demoConfig\<lparr>TemplateFile := ''locked.tmpl''\<rparr>"
  have n: "lookupPath demoFs (TemplateFile ?n) = Inl ENOENT" by code_simp
  have x: "lookupPath demoFs (TemplateFile ?x) = Inl ENOTDIR" by code_simp
  have d: "lookupPath demoFs (TemplateFile ?d) = Inr Directory" by code_simp
  have l: "lookupPath demoFs (TemplateFile ?l) = Inr (RegularFile ''package y'' False)"
    by code_simp
  have t: "lookupPath demoFs (TemplateFile demoConfig) = Inr (RegularFile ''package x; type '' True)"
    by code_simp
  have o: "osStat ?ea (TemplateFile demoConfig) \<noteq> Some ENOENT
           \<and> readFile ?ea (TemplateFile demoConfig) = Inr ''package x; type ''"
    by code_simp
  note r = loadTemplate_results [where fs = demoFs and env = ?ea and gen = "demoPlugin []"
             and p = "''''" and err = EIO]
  from r [where config = ?n and content = "''''"] n
  have 1: "snd (loadTemplate (onFileSystem demoFs ?ea) ?n (demoPlugin []))
             = Inl (TemplateNotFound (TemplateFile ?n))"
    by blast
  from r [where config = ?x and content = "''''"] x
  have 2: "snd (loadTemplate (onFileSystem demoFs ?ea) ?x (demoPlugin []))
             = Inl (TemplateReadError ENOTDIR)"
    by blast
  from r [where config = ?d and content = "''''"] d
  have 3: "snd (loadTemplate (onFileSystem demoFs ?ea) ?d (demoPlugin []))
             = Inl (TemplateReadError EISDIR)"
    by blast
  from r [where config = ?l and content = "''package y''"] l
  have 4: "snd (loadTemplate (onFileSystem demoFs ?ea) ?l (demoPlugin []))
             = Inl (TemplateReadError EACCES)"
    by blast
  from r [where config = demoConfig and content = "''package x; type ''"] t
  have 5: "snd (loadTemplate (onFileSystem demoFs ?ea) demoConfig (demoPlugin []))
             = Inr ''package x; type ''"
    by blast
  from r [where config = demoConfig and content = "''package x; type ''"] o
  have 6: "snd (loadTemplate ?ea demoConfig (demoPlugin [])) = Inr ''package x; type ''"
    by blast
  from 1 2 3 4 5 6 show ?thesis by simp
qed

lemma Write_new:
  "NewGeneratedFile gen path = (gen5, g) \<Longrightarrow>
   genFiles (Write gen5 g formatted) = genFiles gen @ [(path, formatted)]
   \<and> genFiles gen5 = genFiles gen @ [(path, '''')]"
  by (auto simp: NewGeneratedFile_def Write_def)

lemma genFiles_logEvent: "genFiles (logEvent ev gen) = genFiles gen"
  by (simp add: logEvent_def)

lemma genFiles_loadTemplate: "genFiles (fst (loadTemplate env config gen)) = genFiles gen"
  by (simp add: loadTemplate_def Let_def genFiles_logEvent split: sum.splits)

lemma generateServiceRegistry_genFiles:
  assumes "generateServiceRegistry env gen f service config = (gen', r)"
  shows "(genFiles gen' = genFiles gen \<and> r \<noteq> None)
         \<or> (\<exists>content. genFiles gen' = genFiles gen @ [(outputPath_of env config service, content)])"
proof -
  obtain gen1 l where l: "loadTemplate env config gen = (gen1, l)"
    by (cases "loadTemplate env config gen")
  with genFiles_loadTemplate [of env config gen] have g1: "genFiles gen1 = genFiles gen"
    by simp
  obtain gen5 g where n: "NewGeneratedFile
      (logEvent FormatSource (logEvent ExecuteTemplate (logEvent ParseTemplate gen1)))
      (outputPath_of env config service) = (gen5, g)"
    by (cases "NewGeneratedFile
      (logEvent FormatSource (logEvent ExecuteTemplate (logEvent ParseTemplate gen1)))
      (outputPath_of env config service)")
  from Write_new [OF n] g1 have w:
    "\<And>formatted. genFiles (Write gen5 g formatted)
        = genFiles gen @ [(outputPath_of env config service, formatted)]"
    "genFiles gen5 = genFiles gen @ [(outputPath_of env config service, '''')]"
    by (simp_all add: genFiles_logEvent)
  from assms l n g1 w show ?thesis
    unfolding generateServiceRegistry_def Let_def outputPath_of_def [symmetric]
    by (auto simp: genFiles_logEvent split: sum.splits option.splits)
qed

lemma generateServiceRegistry_part000_genFiles:
  assumes "generateServiceRegistry_part000 env gen f service config = (gen', r)"
  shows "(genFiles gen' = genFiles gen \<and> r \<noteq> None)
         \<or> (\<exists>content. genFiles gen' = genFiles gen @ [(outputPath_part000 env config service, content)])"
proof -
  obtain gen1 l where l: "loadTemplate env config gen = (gen1, l)"
    by (cases "loadTemplate env config gen")
  with genFiles_loadTemplate [of env config gen] have g1: "genFiles gen1 = genFiles gen"
    by simp
  obtain gen5 g where n: "NewGeneratedFile
      (logEvent FormatSource (logEvent ExecuteTemplate (logEvent ParseTemplate gen1)))
      (outputPath_part000 env config service) = (gen5, g)"
    by (cases "NewGeneratedFile
      (logEvent FormatSource (logEvent ExecuteTemplate (logEvent ParseTemplate gen1)))
      (outputPath_part000 env config service)")
  from Write_new [OF n] g1 have w:
    "\<And>formatted. genFiles (Write gen5 g formatted)
        = genFiles gen @ [(outputPath_part000 env config service, formatted)]"
    "genFiles gen5 = genFiles gen @ [(outputPath_part000 env config service, '''')]"
    by (simp_all add: genFiles_logEvent)
  from assms l n g1 w show ?thesis
    unfolding generateServiceRegistry_part000_def Let_def outputPath_part000_def [symmetric]
    by (auto simp: genFiles_logEvent split: sum.splits option.splits)
qed

text \<open>
  C4. The file a successful \<open>generateServiceRegistry\<close> registers has the path
  \<open>filepath.Join(config.OutputDir, name + ".go")\<close>, where \<open>name\<close> is the service name
  lower-cased as a whole in \<open>main.go\<close> and through \<open>toCamelCase\<close> (first byte only)
  in \<open>part_000\<close>. On an ASCII name, lower-casing as a whole maps every byte
  \<open>A\<close>..\<open>Z\<close> to \<open>a\<close>..\<open>z\<close> and keeps the others.
\<close>

theorem generateServiceRegistry_output_path:
  "(generateServiceRegistry env gen f service config = (gen', None)
      \<longrightarrow> (\<exists>content. genFiles gen' = genFiles gen @
             [(filepathJoin env (OutputDir config)
                 (ToLower (mapUnicodeLower env) (serviceName_of service) @ ''.go''), content)]))
   \<and> (generateServiceRegistry_part000 env0 gen f service config = (gen', None)
      \<longrightarrow> (\<exists>content. genFiles gen' = genFiles gen @
             [(filepathJoin env0 (OutputDir config)
                 (toCamelCase (serviceName_of service) @ ''.go''), content)]))
   \<and> (list_all (\<lambda>c. byte c < 128) name \<longrightarrow> ToLower u name = map lowerASCII name)"
proof (intro conjI impI)
  assume "generateServiceRegistry env gen f service config = (gen', None)"
  from generateServiceRegistry_genFiles [OF this]
  show "\<exists>content. genFiles gen' = genFiles gen @
             [(filepathJoin env (OutputDir config)
                 (ToLower (mapUnicodeLower env) (serviceName_of service) @ ''.go''), content)]"
    by (simp add: outputPath_of_def)
next
  assume "generateServiceRegistry_part000 env0 gen f service config = (gen', None)"
  from generateServiceRegistry_part000_genFiles [OF this]
  show "\<exists>content. genFiles gen' = genFiles gen @
             [(filepathJoin env0 (OutputDir config)
                 (toCamelCase (serviceName_of service) @ ''.go''), content)]"
    by (simp add: outputPath_part000_def)
next
  assume "list_all (\<lambda>c. byte c < 128) name"
  then show "ToLower u name = map lowerASCII name"
    by (simp add: ToLower_def)
qed

theorem generateServiceRegistry_output_path_witness:
  "snd (generateServiceRegistry demoEnv (demoPlugin []) userFile
          \<lparr>DescName = ''PrepareOrderService''\<rparr> demoConfig) = None
   \<and> map fst (genFiles (fst (generateServiceRegistry demoEnv (demoPlugin []) userFile
          \<lparr>DescName = ''PrepareOrderService''\<rparr> demoConfig))) = [''out/prepareorder.go'']
   \<and> snd (generateServiceRegistry_part000 demoEnv (demoPlugin []) userFile
          \<lparr>DescName = ''PrepareOrderService''\<rparr> demoConfig) = None
   \<and> map fst (genFiles (fst (generateServiceRegistry_part000 demoEnv (demoPlugin []) userFile
          \<lparr>DescName = ''PrepareOrderService''\<rparr> demoConfig))) = [''out/prepareOrder.go'']
   \<and> ToLower (\<lambda>s. s) ''PrepareOrder'' = ''prepareorder''"
proof -
  let ?s = "\<lparr>DescName = ''PrepareOrderService''\<rparr>"
  let ?ea = "demoEnv :: (string, ServiceInfo) env"
  let ?eb = "demoEnv :: (string, ServiceInfo_part000) env"
  let ?a = "generateServiceRegistry ?ea (demoPlugin []) userFile ?s demoConfig"
  let ?b = "generateServiceRegistry_part000 ?eb (demoPlugin []) userFile ?s demoConfig"
  have a: "snd ?a = None" by code_simp
  have b: "snd ?b = None" by code_simp
  have pa: "filepathJoin ?ea (OutputDir demoConfig)
              (ToLower (mapUnicodeLower ?ea) (serviceName_of ?s) @ ''.go'')
            = ''out/prepareorder.go''"
    by code_simp
  have pb: "filepathJoin ?eb (OutputDir demoConfig)
              (toCamelCase (serviceName_of ?s) @ ''.go'')
            = ''out/prepareOrder.go''"
    by code_simp
  have ascii: "list_all (\<lambda>c. byte c < 128) ''PrepareOrder''"
    by (simp add: byte_def)
  have e: "genFiles (demoPlugin []) = []" by (simp add: demoPlugin_def)
  note t = generateServiceRegistry_output_path
         [where env = ?ea and ?env0.0 = ?eb and gen = "demoPlugin []" and f = userFile
            and service = ?s and config = demoConfig and name = "''PrepareOrder''"
            and u = "\<lambda>s. s"]
  from a have "?a = (fst ?a, None)" by (simp add: prod_eq_iff)
  with t [where gen' = "fst ?a"]
  have "\<exists>content. genFiles (fst ?a) = genFiles (demoPlugin []) @
             [(filepathJoin ?ea (OutputDir demoConfig)
                 (ToLower (mapUnicodeLower ?ea) (serviceName_of ?s) @ ''.go''), content)]"
    by blast
  then have 1: "map fst (genFiles (fst ?a)) = [''out/prepareorder.go'']"
    by (auto simp: pa e)
  from b have "?b = (fst ?b, None)" by (simp add: prod_eq_iff)
  with t [where gen' = "fst ?b"]
  have "\<exists>content. genFiles (fst ?b) = genFiles (demoPlugin []) @
             [(filepathJoin ?eb (OutputDir demoConfig)
                 (toCamelCase (serviceName_of ?s) @ ''.go''), content)]"
    by blast
  then have 2: "map fst (genFiles (fst ?b)) = [''out/prepareOrder.go'']"
    by (auto simp: pb e)
  from t [where gen' = "fst ?a"] ascii
  have "ToLower (\<lambda>s. s) ''PrepareOrder'' = map lowerASCII ''PrepareOrder''"
    by blast
  also have "\<dots> = ''prepareorder''" by code_simp
  finally have 3: "ToLower (\<lambda>s. s) ''PrepareOrder'' = ''prepareorder''" .
  from a b 1 2 3 show ?thesis by blast
qed

section \<open>The run over the files\<close>

lemma generateAll_append:
  "generateAll env gen (xs @ ys) config =
     (case generateAll env gen xs config of
        (gen', Some err) \<Rightarrow> (gen', Some err)
      | (gen', None) \<Rightarrow> generateAll env gen' ys config)"
proof (induction xs arbitrary: gen)
  case Nil
  then show ?case by simp
next
  case (Cons x xs)
  obtain f s where x: "x = (f, s)" by (cases x)
  show ?case
    by (simp add: x Cons.IH split: prod.splits option.splits)
qed

lemma serviceLoop_generateAll:
  "serviceLoop env gen f ss config = generateAll env gen (map (Pair f) ss) config"
  by (induction ss arbitrary: gen) (simp_all split: prod.splits option.splits)

lemma eligibleServices_Cons:
  "eligibleServices (f # fs) =
     (if Generate f then map (Pair f) (Services f) @ eligibleServices fs
      else eligibleServices fs)"
  by (simp add: eligibleServices_def)

lemma eligibleServices_skip:
  "\<not> Generate f \<Longrightarrow> eligibleServices (pre @ f # post) = eligibleServices (pre @ post)"
  by (simp add: eligibleServices_def)

lemma fileLoop_generateAll:
  "fileLoop env gen files config = generateAll env gen (eligibleServices files) config"
proof (induction files arbitrary: gen)
  case Nil
  then show ?case by (simp add: eligibleServices_def)
next
  case (Cons f fs)
  show ?case
  proof (cases "Generate f")
    case False
    then show ?thesis by (simp add: Cons.IH eligibleServices_Cons)
  next
    case True
    then show ?thesis
      by (simp add: Cons.IH eligibleServices_Cons generateAll_append serviceLoop_generateAll
          split: prod.splits option.splits)
  qed
qed




text \<open>
  The steps of \<open>generateServiceRegistry\<close> run in sequence, and the first one that
  fails gives the error of the call: loading, parsing, executing, formatting,
  writing.
\<close>

lemma generateServiceRegistry_steps:
  "snd (generateServiceRegistry env gen f service config) =
     (case snd (loadTemplate env config gen) of
        Inl err \<Rightarrow> Some (LoadTemplateFailed err)
      | Inr tmplContent \<Rightarrow>
          (case templateParse env tmplContent of
             Inl err \<Rightarrow> Some (ParseTemplateFailed err)
           | Inr tmpl \<Rightarrow>
               (case templateExecute env tmpl
                       \<lparr>PackageName_info = PackageName config,
                        ServiceName = serviceName_of service,
                        ProtoPackageName = protoPackageName_of f\<rparr> of
                  Inl err \<Rightarrow> Some (ExecuteTemplateFailed err)
                | Inr buf \<Rightarrow>
                    (case formatSource env buf of
                       Inl err \<Rightarrow> Some (FormatFailed err)
                     | Inr formatted \<Rightarrow> map_option WriteFailed (genWrite env formatted)))))"
  by (simp add: generateServiceRegistry_def Let_def NewGeneratedFile_def
      split: prod.splits sum.splits option.splits)

lemma main_parsed:
  "parsePluginOptions (case Parameter gen of None \<Rightarrow> '''' | Some p \<Rightarrow> p) = Inr config \<Longrightarrow>
   main env gen = generateAll env gen (eligibleServices (Files gen)) config"
  by (simp add: main_def fileLoop_generateAll)



text \<open>
  C6. A file whose \<open>Generate\<close> is false leaves the state as it is, with no file
  registered and no call to the file system, the template engine or the
  formatter, whatever services it declares; the loop over the files gives what it
  gives without that file. A run over such files only returns the state it was
  given.
\<close>

theorem fileLoop_skips_not_generated:
  "(\<not> Generate f \<longrightarrow>
      fileLoop env gen [f] config = (gen, None)
      \<and> fileLoop env gen (pre @ f # post) config = fileLoop env gen (pre @ post) config)
   \<and> ((\<forall>f'\<in>set (Files gen). \<not> Generate f')
        \<and> parsePluginOptions (case Parameter gen of None \<Rightarrow> '''' | Some p \<Rightarrow> p) = Inr config
      \<longrightarrow> main env gen = (gen, None))"
proof (intro conjI impI)
  assume n: "\<not> Generate f"
  then show "fileLoop env gen [f] config = (gen, None)"
    by simp
  from n show "fileLoop env gen (pre @ f # post) config = fileLoop env gen (pre @ post) config"
    by (simp add: fileLoop_generateAll eligibleServices_skip)
next
  assume a: "(\<forall>f'\<in>set (Files gen). \<not> Generate f')
        \<and> parsePluginOptions (case Parameter gen of None \<Rightarrow> '''' | Some p \<Rightarrow> p) = Inr config"
  then have "filter Generate (Files gen) = []"
    by (simp add: filter_empty_conv)
  then have "eligibleServices (Files gen) = []"
    by (simp add: eligibleServices_def)
  moreover from a have "main env gen = generateAll env gen (eligibleServices (Files gen)) config"
    by (simp add: main_parsed)
  ultimately show "main env gen = (gen, None)"
    by simp
qed

theorem fileLoop_skips_not_generated_witness:
  "\<not> Generate depFile
   \<and> Services depFile = [\<lparr>DescName = ''DepService''\<rparr>]
   \<and> fileLoop demoEnv (demoPlugin []) [depFile] demoConfig = (demoPlugin [], None)
   \<and> fileLoop demoEnv (demoPlugin []) ([userFile] @ depFile # [orderFile]) demoConfig
     = fileLoop demoEnv (demoPlugin []) ([userFile] @ [orderFile]) demoConfig
   \<and> main demoEnv (demoPlugin [depFile]) = (demoPlugin [depFile], None)"
proof -
  let ?ea = "demoEnv :: (string, ServiceInfo) env"
  let ?g = "demoPlugin [depFile]"
  have n: "\<not> Generate depFile" by (simp add: depFile_def)
  have s: "Services depFile = [\<lparr>DescName = ''DepService''\<rparr>]" by (simp add: depFile_def)
  have p: "parsePluginOptions (case Parameter ?g of None \<Rightarrow> '''' | Some p \<Rightarrow> p) = Inr demoConfig"
    by code_simp
  from n have all: "\<forall>f'\<in>set (Files ?g). \<not> Generate f'"
    by (simp add: demoPlugin_def)
  note t = fileLoop_skips_not_generated
         [where f = depFile and env = ?ea and config = demoConfig
            and pre = "[userFile]" and post = "[orderFile]"]
  from t [where gen = "demoPlugin []"] n
  have 1: "fileLoop ?ea (demoPlugin []) [depFile] demoConfig = (demoPlugin [], None)
     \<and> fileLoop ?ea (demoPlugin []) ([userFile] @ depFile # [orderFile]) demoConfig
       = fileLoop ?ea (demoPlugin []) ([userFile] @ [orderFile]) demoConfig"
    by blast
  from t [where gen = ?g] all p
  have 2: "main ?ea ?g = (?g, None)"
    by blast
  from n s 1 2 show ?thesis by blast
qed

end
